theory Spec2Isabelle
  imports Main "HOL-Library.Char_ord" "HOL-Library.List_Lexorder" "HOL-Library.Product_Lexorder"
begin

section \<open>Debug adapter registry (debugAdapterManager.ts)\<close>

text \<open>
  \<^verbatim>\<open>AdapterManager\<close> keeps \<^verbatim>\<open>debugAdapterFactories\<close>, a \<^verbatim>\<open>Map<string, IDebugAdapterFactory>\<close>.
  A session is reduced to the one field the lookup reads, \<^verbatim>\<open>session.configuration.type\<close>,
  plus its id; a factory is its \<^verbatim>\<open>createDebugAdapter\<close> method. The type \<open>'a\<close> stands for
  \<^verbatim>\<open>IDebugAdapter\<close>; \<^verbatim>\<open>undefined\<close> is \<open>None\<close>. Of \<^verbatim>\<open>registerDebugAdapterFactory\<close>
  only the writes to the map are kept; the context key it sets and the event it fires do
  not bear on the lookup.
\<close>

record IDebugSession =
  session_id :: string
  configuration_type :: string

type_synonym 'a IDebugAdapterFactory = "IDebugSession \<Rightarrow> 'a"

record 'a AdapterManager =
  debugAdapterFactories :: "string \<rightharpoonup> 'a IDebugAdapterFactory"

definition registerDebugAdapterFactory ::
  "string list \<Rightarrow> 'a IDebugAdapterFactory \<Rightarrow> 'a AdapterManager \<Rightarrow> 'a AdapterManager" where
  "registerDebugAdapterFactory debugTypes debugAdapterLauncher m =
     m\<lparr>debugAdapterFactories :=
          fold (\<lambda>debugType fs. fs(debugType \<mapsto> debugAdapterLauncher)) debugTypes
            (debugAdapterFactories m)\<rparr>"

definition createDebugAdapter :: "'a AdapterManager \<Rightarrow> IDebugSession \<Rightarrow> 'a option" where
  "createDebugAdapter m session =
     (case debugAdapterFactories m (configuration_type session) of
        Some factory \<Rightarrow> Some (factory session)
      | None \<Rightarrow> None)"

section \<open>Notebook cell edits (notebookCommon, as used by the sources)\<close>

datatype CellKind = Markup | Code

record ICellDto =
  dto_cellKind :: CellKind
  dto_source :: string
  dto_language :: string
  dto_mime :: "string option"
  dto_outputs :: "string list"
  dto_metadata :: "string option"

datatype CellEditType =
    Replace | Output | Metadata | CellLanguage | DocumentMetadata
  | Move | OutputItems | PartialMetadata | PartialInternalMetadata

text \<open>
  \<^verbatim>\<open>ICellEditOperation\<close> is a union tagged by \<^verbatim>\<open>editType\<close>. The sources build two
  variants, \<^verbatim>\<open>{editType: Replace, index, count, cells}\<close> and
  \<^verbatim>\<open>{editType: Move, index, length, newIdx}\<close>; the others only occur as tags in
  \<^verbatim>\<open>convertToCellEdit\<close>. Indices are JavaScript numbers, here \<open>int\<close>.
\<close>

datatype ICellEditOperation =
    CellReplaceEdit int int "ICellDto list"
  | CellOutputEdit
  | CellMetadataEdit
  | CellLanguageEdit
  | DocumentMetadataEdit
  | CellMoveEdit int int int
  | CellOutputItemsEdit
  | CellPartialMetadataEdit
  | CellPartialInternalMetadataEdit

fun editType :: "ICellEditOperation \<Rightarrow> CellEditType" where
  "editType (CellReplaceEdit index count cs) = Replace"
| "editType CellOutputEdit = Output"
| "editType CellMetadataEdit = Metadata"
| "editType CellLanguageEdit = CellLanguage"
| "editType DocumentMetadataEdit = DocumentMetadata"
| "editType (CellMoveEdit index len newIdx) = Move"
| "editType CellOutputItemsEdit = OutputItems"
| "editType CellPartialMetadataEdit = PartialMetadata"
| "editType CellPartialInternalMetadataEdit = PartialInternalMetadata"

section \<open>Bulk cell edits (bulkCellEdits.ts)\<close>

text \<open>\<^verbatim>\<open>ICellEdit\<close> is the edit type of the SQL notebook editor; no value of it is ever built.\<close>

typedecl ICellEdit

text \<open>
  \<^verbatim>\<open>convertToCellEdit\<close>: the loop over \<^verbatim>\<open>edits\<close> with the accumulator
  \<^verbatim>\<open>convertedEdits\<close>; every case of the \<^verbatim>\<open>switch\<close> is \<^verbatim>\<open>continue\<close>.
\<close>

fun convertLoop :: "ICellEdit list \<Rightarrow> ICellEditOperation list \<Rightarrow> ICellEdit list" where
  "convertLoop convertedEdits [] = convertedEdits"
| "convertLoop convertedEdits (edit # rest) =
     (case editType edit of
        Replace \<Rightarrow> convertLoop convertedEdits rest
      | Output \<Rightarrow> convertLoop convertedEdits rest
      | Metadata \<Rightarrow> convertLoop convertedEdits rest
      | CellLanguage \<Rightarrow> convertLoop convertedEdits rest
      | DocumentMetadata \<Rightarrow> convertLoop convertedEdits rest
      | Move \<Rightarrow> convertLoop convertedEdits rest
      | OutputItems \<Rightarrow> convertLoop convertedEdits rest
      | PartialMetadata \<Rightarrow> convertLoop convertedEdits rest
      | PartialInternalMetadata \<Rightarrow> convertLoop convertedEdits rest)"

definition convertToCellEdit :: "ICellEditOperation list \<Rightarrow> ICellEdit list" where
  "convertToCellEdit edits = convertLoop [] edits"

record ResourceNotebookCellEdit =
  resource :: string
  cellEdit :: ICellEditOperation

text \<open>\<^verbatim>\<open>compare\<close> of \<^verbatim>\<open>vs/base/common/strings\<close>, on the resources' string forms.\<close>

definition compare :: "string \<Rightarrow> string \<Rightarrow> int" where
  "compare a b = (if a < b then - 1 else if b < a then 1 else 0)"

definition compareResource :: "ResourceNotebookCellEdit \<Rightarrow> ResourceNotebookCellEdit \<Rightarrow> int" where
  "compareResource a b = compare (resource a) (resource b)"

text \<open>
  \<^verbatim>\<open>groupBy\<close> of \<^verbatim>\<open>vs/base/common/arrays\<close> is not among the sources: it is a
  parameter of \<^verbatim>\<open>apply\<close>, given the edits and the comparison of two edits, and
  giving the groups the loop runs over.
\<close>

type_synonym GroupBy =
  "ResourceNotebookCellEdit list
     \<Rightarrow> (ResourceNotebookCellEdit \<Rightarrow> ResourceNotebookCellEdit \<Rightarrow> int)
     \<Rightarrow> ResourceNotebookCellEdit list list"

text \<open>
  What \<^verbatim>\<open>BulkCellEdits.apply\<close> does to its collaborators, in order: a call of
  \<^verbatim>\<open>editor.applyCellEdits\<close> on the editor found for a resource, a call of
  \<^verbatim>\<open>_progress.report\<close>, or a \<^verbatim>\<open>TypeError\<close> ending the run (reading
  \<^verbatim>\<open>first.resource\<close> of an empty group).
\<close>

datatype effect =
    ApplyCellEdits string "ICellEdit list"
  | ProgressReport
  | RaisedTypeError

text \<open>
  The host: \<open>token k\<close> is what \<^verbatim>\<open>_token.isCancellationRequested\<close> reads at the \<open>k\<close>-th
  iteration of the loop (the host may request cancellation at any await in between);
  \<open>findNotebookEditor r\<close> tells whether the notebook service finds an editor for \<open>r\<close>.
\<close>

fun applyLoop ::
  "(nat \<Rightarrow> bool) \<Rightarrow> (string \<Rightarrow> bool) \<Rightarrow> nat \<Rightarrow> ResourceNotebookCellEdit list list \<Rightarrow> effect list" where
  "applyLoop token findNotebookEditor k [] = []"
| "applyLoop token findNotebookEditor k (grp # rest) =
     (if token k then []
      else (case grp of
              [] \<Rightarrow> [RaisedTypeError]
            | first # _ \<Rightarrow>
                (if findNotebookEditor (resource first)
                 then [ApplyCellEdits (resource first) (convertToCellEdit (map cellEdit grp))]
                 else [])
                @ ProgressReport # applyLoop token findNotebookEditor (Suc k) rest))"

definition BulkCellEdits_apply ::
  "GroupBy \<Rightarrow> (nat \<Rightarrow> bool) \<Rightarrow> (string \<Rightarrow> bool) \<Rightarrow> ResourceNotebookCellEdit list
     \<Rightarrow> effect list" where
  "BulkCellEdits_apply groupBy token findNotebookEditor edits =
     applyLoop token findNotebookEditor 0 (groupBy edits compareResource)"


text \<open>
  The number of groups the loop gets through when there are \<open>n\<close> of them: the checks
  before them all read "not cancelled".
\<close>

definition groupsBeforeCancel :: "(nat \<Rightarrow> bool) \<Rightarrow> nat \<Rightarrow> nat" where
  "groupsBeforeCancel token n = length (takeWhile (\<lambda>k. \<not> token k) [0..<n])"


section \<open>Notebook documents (the host interfaces cellOperations.ts works against)\<close>

text \<open>
  \<^verbatim>\<open>ICellRange\<close> of \<^verbatim>\<open>notebookRange\<close>: the half-open interval \<open>[start, end)\<close> of cell
  indices. Indices are JavaScript numbers and can leave the Document, so they are \<open>int\<close>.
\<close>

record ICellRange =
  start :: int
  end' :: int

text \<open>\<^verbatim>\<open>ISelectionState\<close> of kind \<^verbatim>\<open>SelectionStateType.Index\<close>.\<close>

record ISelectionState =
  state_focus :: ICellRange
  state_selections :: "ICellRange list"

definition cellRangeContains :: "ICellRange \<Rightarrow> ICellRange \<Rightarrow> bool" where
  "cellRangeContains rng other \<longleftrightarrow> start rng \<le> start other \<and> end' other \<le> end' rng"

definition cellRangesToIndexes :: "ICellRange list \<Rightarrow> int list" where
  "cellRangesToIndexes ranges = concat (map (\<lambda>r. [start r .. end' r - 1]) ranges)"

subsection \<open>Text buffers\<close>

text \<open>
  Modelled from the spec: the text buffer of a Cell (\<^verbatim>\<open>IReadonlyTextBuffer\<close>) is not among
  the sources. It is the Cell's text as lines with one line-break sequence; line numbers
  and columns count from 1, the column after the last character of a line is its length
  plus one, and a position outside the buffer reads as an empty line.
\<close>

record TextBuffer =
  buffer_lines :: "string list"
  buffer_eol :: string

definition getLineCount :: "TextBuffer \<Rightarrow> int" where
  "getLineCount tb = int (length (buffer_lines tb))"

definition getLineContent :: "TextBuffer \<Rightarrow> int \<Rightarrow> string" where
  "getLineContent tb n =
     (if 1 \<le> n \<and> n \<le> getLineCount tb then buffer_lines tb ! nat (n - 1) else [])"

definition getLineLength :: "TextBuffer \<Rightarrow> int \<Rightarrow> int" where
  "getLineLength tb n = int (length (getLineContent tb n))"

definition getEOL :: "TextBuffer \<Rightarrow> string" where
  "getEOL tb = buffer_eol tb"

fun joinWith :: "string \<Rightarrow> string list \<Rightarrow> string" where
  "joinWith sep [] = []"
| "joinWith sep [x] = x"
| "joinWith sep (x # y # ys) = x @ sep @ joinWith sep (y # ys)"

definition getValue :: "TextBuffer \<Rightarrow> string" where
  "getValue tb = joinWith (buffer_eol tb) (buffer_lines tb)"

fun splitLines :: "string \<Rightarrow> string list" where
  "splitLines [] = [[]]"
| "splitLines (c # cs) =
     (if c = CHR 0x0A then [] # splitLines cs
      else (case splitLines cs of [] \<Rightarrow> [[c]] | l # ls \<Rightarrow> (c # l) # ls))"

definition createTextBuffer :: "string \<Rightarrow> TextBuffer" where
  "createTextBuffer source = \<lparr>buffer_lines = splitLines source, buffer_eol = [CHR 0x0A]\<rparr>"

record IPosition =
  lineNumber :: int
  column :: int

definition Position :: "int \<Rightarrow> int \<Rightarrow> IPosition" where
  "Position l c = \<lparr>lineNumber = l, column = c\<rparr>"

record Range =
  startLineNumber :: int
  startColumn :: int
  endLineNumber :: int
  endColumn :: int

text \<open>The constructor of \<^verbatim>\<open>Range\<close> puts the two ends in order.\<close>

definition mkRange :: "int \<Rightarrow> int \<Rightarrow> int \<Rightarrow> int \<Rightarrow> Range" where
  "mkRange sl sc el ec =
     (if el < sl \<or> (sl = el \<and> ec < sc)
      then \<lparr>startLineNumber = el, startColumn = ec, endLineNumber = sl, endColumn = sc\<rparr>
      else \<lparr>startLineNumber = sl, startColumn = sc, endLineNumber = el, endColumn = ec\<rparr>)"

definition getValueInRange :: "TextBuffer \<Rightarrow> Range \<Rightarrow> string" where
  "getValueInRange tb r =
     (if startLineNumber r = endLineNumber r
      then take (nat (endColumn r - startColumn r))
             (drop (nat (startColumn r - 1)) (getLineContent tb (startLineNumber r)))
      else drop (nat (startColumn r - 1)) (getLineContent tb (startLineNumber r))
           @ buffer_eol tb
           @ concat (map (\<lambda>n. getLineContent tb n @ buffer_eol tb)
                       [startLineNumber r + 1 .. endLineNumber r - 1])
           @ take (nat (endColumn r - 1)) (getLineContent tb (endLineNumber r)))"

subsection \<open>Cells and the editor\<close>

datatype CellEditState = Preview | Editing

text \<open>
  A cell as the sources read it, the view model and its text model in one: \<^verbatim>\<open>handle\<close>,
  \<^verbatim>\<open>cellKind\<close>, \<^verbatim>\<open>textBuffer\<close>, \<^verbatim>\<open>language\<close>, \<^verbatim>\<open>mime\<close>, \<^verbatim>\<open>model.outputs\<close>,
  \<^verbatim>\<open>metadata\<close>, \<^verbatim>\<open>getEditState()\<close>. Outputs and metadata are opaque. A cell's
  \<^verbatim>\<open>uri\<close> is identified with its handle.
\<close>

record Cell =
  handle :: nat
  cellKind :: CellKind
  textBuffer :: TextBuffer
  cell_language :: string
  cell_mime :: "string option"
  cell_outputs :: "string list"
  cell_metadata :: "string option"
  editState :: CellEditState

definition getText :: "Cell \<Rightarrow> string" where
  "getText cell = getValue (textBuffer cell)"

definition cloneNotebookCellTextModel :: "Cell \<Rightarrow> ICellDto" where
  "cloneNotebookCellTextModel cell =
     \<lparr>dto_cellKind = cellKind cell, dto_source = getText cell,
      dto_language = cell_language cell, dto_mime = cell_mime cell,
      dto_outputs = cell_outputs cell, dto_metadata = cell_metadata cell\<rparr>"

datatype FocusTarget = FocusEditor | FocusContainer

datatype ViewCall =
    FocusNotebookCell "Cell option" FocusTarget
  | RevealCellRangeInView ICellRange

text \<open>
  Modelled from the spec: the undo stack belongs to the transaction applier, which is not
  among the sources. An entry is the snapshot captured before a batch: the Document
  content and the Selection State.
\<close>

record UndoEntry =
  saved_cells :: "Cell list"
  saved_selection :: ISelectionState

text \<open>
  The editor with its text model and view model: \<^verbatim>\<open>hasModel()\<close>, \<^verbatim>\<open>isReadOnly\<close>,
  \<^verbatim>\<open>textModel.uri\<close>, \<^verbatim>\<open>textModel.cells\<close>, the handle the next new cell gets,
  \<^verbatim>\<open>getFocus()\<close>, \<^verbatim>\<open>getSelections()\<close>, \<^verbatim>\<open>activeKernel?.supportedLanguages\<close>, the undo
  stack, and the calls made on the view, latest last.
\<close>

record NotebookEditor =
  hasModel :: bool
  isReadOnly :: bool
  textModel_uri :: string
  textModel_cells :: "Cell list"
  nextHandle :: nat
  editor_focus :: ICellRange
  editor_selections :: "ICellRange list"
  supportedLanguages :: "string list option"
  undoStack :: "UndoEntry list"
  viewCalls :: "ViewCall list"

definition getFocus :: "NotebookEditor \<Rightarrow> ICellRange" where
  "getFocus editor = editor_focus editor"

definition getSelections :: "NotebookEditor \<Rightarrow> ICellRange list" where
  "getSelections editor = editor_selections editor"

definition getLength :: "NotebookEditor \<Rightarrow> int" where
  "getLength editor = int (length (textModel_cells editor))"

text \<open>
  Modelled from the spec: the accessors of the editor (\<^verbatim>\<open>notebookBrowser\<close>) are not among
  the sources. The Document is an ordered sequence of Cells and a Cell Range a half-open
  index interval over it: \<^verbatim>\<open>cellAt\<close> is \<^verbatim>\<open>undefined\<close> outside the Document,
  \<^verbatim>\<open>getCellsInRange\<close> cuts the range to the Document, \<^verbatim>\<open>getCellIndex\<close> finds a cell by
  its handle (\<open>- 1\<close> when it is not there, like \<^verbatim>\<open>findIndex\<close>).
\<close>

definition cellAt :: "NotebookEditor \<Rightarrow> int \<Rightarrow> Cell option" where
  "cellAt editor index =
     (if 0 \<le> index \<and> index < getLength editor
      then Some (textModel_cells editor ! nat index) else None)"

fun findIndex :: "('a \<Rightarrow> bool) \<Rightarrow> 'a list \<Rightarrow> int" where
  "findIndex P [] = - 1"
| "findIndex P (x # xs) =
     (if P x then 0 else (if findIndex P xs < 0 then - 1 else findIndex P xs + 1))"

definition getCellIndex :: "NotebookEditor \<Rightarrow> Cell \<Rightarrow> int" where
  "getCellIndex editor cell = findIndex (\<lambda>c. handle c = handle cell) (textModel_cells editor)"

definition getCellsInRange :: "NotebookEditor \<Rightarrow> ICellRange \<Rightarrow> Cell list" where
  "getCellsInRange editor rng =
     (let s = max 0 (start rng); e = min (getLength editor) (end' rng)
      in take (nat (e - s)) (drop (nat s) (textModel_cells editor)))"

definition revealCellRangeInView :: "ICellRange \<Rightarrow> NotebookEditor \<Rightarrow> NotebookEditor" where
  "revealCellRangeInView rng editor =
     editor\<lparr>viewCalls := viewCalls editor @ [RevealCellRangeInView rng]\<rparr>"

definition focusNotebookCell :: "Cell option \<Rightarrow> FocusTarget \<Rightarrow> NotebookEditor \<Rightarrow> NotebookEditor" where
  "focusNotebookCell cell target editor =
     editor\<lparr>viewCalls := viewCalls editor @ [FocusNotebookCell cell target]\<rparr>"

subsection \<open>The cell edit transaction applier\<close>

text \<open>
  Modelled from the spec: \<^verbatim>\<open>textModel.applyEdits\<close>, the Cell Edit Transaction Applier, is
  not among the sources. The operations of a batch are applied in their order.
  \<open>Replace(index, count, newCells)\<close> removes \<open>count\<close> cells at \<open>index\<close> and puts
  \<open>newCells\<close> there; \<open>Move(index, length, newIdx)\<close> takes the \<open>length\<close> cells at \<open>index\<close>
  out and puts them back at \<open>newIdx\<close>, an index into the Document without them. An index
  outside the Document never raises: the range is cut to the Document. The other edit
  types leave the cell sequence as it is. New cells get the next free handles.
\<close>

text \<open>
  Modelled from the spec: how the applier makes a Cell of a cell description (kind, text
  buffer, language tag, output list, metadata), with a handle of its own.
\<close>

definition newCell :: "nat \<Rightarrow> ICellDto \<Rightarrow> Cell" where
  "newCell h dto =
     \<lparr>handle = h, cellKind = dto_cellKind dto, textBuffer = createTextBuffer (dto_source dto),
      cell_language = dto_language dto, cell_mime = dto_mime dto,
      cell_outputs = dto_outputs dto, cell_metadata = dto_metadata dto, editState = Preview\<rparr>"

definition newCells :: "nat \<Rightarrow> ICellDto list \<Rightarrow> Cell list" where
  "newCells h dtos = map (\<lambda>(k, dto). newCell (h + k) dto) (enumerate 0 dtos)"

text \<open>
  Modelled from the spec: one Edit Operation, on the cell sequence and the next free handle.
\<close>

fun applyEdit :: "Cell list \<times> nat \<Rightarrow> ICellEditOperation \<Rightarrow> Cell list \<times> nat" where
  "applyEdit (cs, h) (CellReplaceEdit index count dtos) =
     (take (nat index) cs @ newCells h dtos @ drop (nat index + nat count) cs,
      h + length dtos)"
| "applyEdit (cs, h) (CellMoveEdit index len newIdx) =
     (let moved = take (nat len) (drop (nat index) cs);
          others = take (nat index) cs @ drop (nat index + nat len) cs
      in (take (nat newIdx) others @ moved @ drop (nat newIdx) others, h))"
| "applyEdit (cs, h) CellOutputEdit = (cs, h)"
| "applyEdit (cs, h) CellMetadataEdit = (cs, h)"
| "applyEdit (cs, h) CellLanguageEdit = (cs, h)"
| "applyEdit (cs, h) DocumentMetadataEdit = (cs, h)"
| "applyEdit (cs, h) CellOutputItemsEdit = (cs, h)"
| "applyEdit (cs, h) CellPartialMetadataEdit = (cs, h)"
| "applyEdit (cs, h) CellPartialInternalMetadataEdit = (cs, h)"

text \<open>
  Modelled from the spec: the Selection State must remain index-valid against the
  post-edit Document length, every range of it within \<open>[0, newCount]\<close>; the applier,
  which is not among the sources, keeps it so. A range is made index-valid by cutting its
  two ends to \<open>[0, newCount]\<close> and putting them in order; a range that is index-valid
  stays as it is.
\<close>

definition clampIndex :: "int \<Rightarrow> int \<Rightarrow> int" where
  "clampIndex n i = max 0 (min n i)"

definition validateRange :: "int \<Rightarrow> ICellRange \<Rightarrow> ICellRange" where
  "validateRange n r =
     (let s = clampIndex n (start r); e = clampIndex n (end' r)
      in \<lparr>start = min s e, end' = max s e\<rparr>)"

definition validateSelectionState :: "int \<Rightarrow> ISelectionState \<Rightarrow> ISelectionState" where
  "validateSelectionState n state =
     \<lparr>state_focus = validateRange n (state_focus state),
      state_selections = map (validateRange n) (state_selections state)\<rparr>"

text \<open>
  Modelled from the spec: \<^verbatim>\<open>applyEdits\<close>, whose body is not among the sources, as the
  callers call it: the edits, \<^verbatim>\<open>synchronous\<close>, the compute-before Selection State, the
  compute-after function, \<^verbatim>\<open>undefined\<close>, and a sixth argument that only
  \<^verbatim>\<open>changeCellToKind\<close> (\<^verbatim>\<open>true\<close>) and \<^verbatim>\<open>insertCellAtIndex\<close> (its \<^verbatim>\<open>pushUndoStop\<close>)
  give. The compute-after function runs on the editor with the edits staged and the
  selection not yet changed; what it returns, made index-valid against the new length,
  becomes the Selection State. Exactly one undo entry, holding the Document content and
  the compute-before Selection State, is registered for the whole batch. The
  specification has no words for \<^verbatim>\<open>synchronous\<close> or for the sixth argument: they are
  taken and not read.
\<close>

definition stageEdits :: "ICellEditOperation list \<Rightarrow> NotebookEditor \<Rightarrow> NotebookEditor" where
  "stageEdits rawEdits editor =
     (case foldl applyEdit (textModel_cells editor, nextHandle editor) rawEdits of
        (cs, h) \<Rightarrow> editor\<lparr>textModel_cells := cs, nextHandle := h\<rparr>)"

definition applyEdits ::
  "ICellEditOperation list \<Rightarrow> bool \<Rightarrow> ISelectionState \<Rightarrow> (NotebookEditor \<Rightarrow> ISelectionState)
     \<Rightarrow> bool option \<Rightarrow> NotebookEditor \<Rightarrow> NotebookEditor" where
  "applyEdits rawEdits synchronous beginSelectionState endSelectionsComputer sixthArgument editor =
     (let staged = stageEdits rawEdits editor;
          endSelections = validateSelectionState (getLength staged) (endSelectionsComputer staged)
      in staged\<lparr>editor_focus := state_focus endSelections,
                editor_selections := state_selections endSelections,
                undoStack := \<lparr>saved_cells = textModel_cells editor,
                              saved_selection = beginSelectionState\<rparr> # undoStack editor\<rparr>)"

text \<open>
  Modelled from the spec: undo, which is not among the sources, restores the Document
  content and the Selection State of the latest entry and takes the entry off the stack.
\<close>

definition undo :: "NotebookEditor \<Rightarrow> NotebookEditor" where
  "undo editor =
     (case undoStack editor of
        [] \<Rightarrow> editor
      | entry # rest \<Rightarrow>
          editor\<lparr>textModel_cells := saved_cells entry,
                 editor_focus := state_focus (saved_selection entry),
                 editor_selections := state_selections (saved_selection entry),
                 undoStack := rest\<rparr>)"

definition currentSelectionState :: "NotebookEditor \<Rightarrow> ISelectionState" where
  "currentSelectionState editor =
     \<lparr>state_focus = getFocus editor, state_selections = getSelections editor\<rparr>"

section \<open>Cell operations (cellOperations.ts)\<close>

datatype error = TypeError

text \<open>
  \<^verbatim>\<open>INotebookActionContext\<close>: \<^verbatim>\<open>ui\<close>, \<^verbatim>\<open>cell\<close> and \<^verbatim>\<open>selectedCells\<close> may be missing;
  the \<^verbatim>\<open>notebookEditor\<close> of the context is the editor argument of the operations below.
  In \<^verbatim>\<open>INotebookCellActionContext\<close> the cell is always there.
\<close>

record INotebookActionContext =
  context_ui :: bool
  context_cell :: "Cell option"
  context_selectedCells :: "Cell list option"

record INotebookCellActionContext =
  cellContext_ui :: bool
  cellContext_cell :: Cell

subsection \<open>changeCellToKind\<close>

text \<open>\<^verbatim>\<open>(notebookEditor.activeKernel?.supportedLanguages ?? [])[0] ?? 'plaintext'\<close>\<close>

definition firstAvailableLanguage :: "NotebookEditor \<Rightarrow> string" where
  "firstAvailableLanguage editor =
     (case supportedLanguages editor of
        None \<Rightarrow> ''plaintext''
      | Some [] \<Rightarrow> ''plaintext''
      | Some (l # _) \<Rightarrow> l)"

definition changedCellDto :: "CellKind \<Rightarrow> string \<Rightarrow> string option \<Rightarrow> Cell \<Rightarrow> ICellDto" where
  "changedCellDto kind language mime cell =
     \<lparr>dto_cellKind = kind, dto_source = getText cell, dto_language = language,
      dto_mime = (case mime of Some m \<Rightarrow> Some m | None \<Rightarrow> cell_mime cell),
      dto_outputs = cell_outputs cell, dto_metadata = cell_metadata cell\<rparr>"

text \<open>
  The \<^verbatim>\<open>forEach\<close> over \<^verbatim>\<open>selectedCells\<close>: \<^verbatim>\<open>language\<close> is assigned by the first cell
  that needs it and kept for the later ones.
\<close>

fun changeKindEdits ::
  "CellKind \<Rightarrow> string option \<Rightarrow> NotebookEditor \<Rightarrow> string option \<Rightarrow> Cell list
     \<Rightarrow> ICellEditOperation list" where
  "changeKindEdits kind mime editor language [] = []"
| "changeKindEdits kind mime editor language (cell # rest) =
     (if cellKind cell = kind then changeKindEdits kind mime editor language rest
      else (let language' = (case language of
                               None \<Rightarrow> firstAvailableLanguage editor | Some l \<Rightarrow> l)
            in CellReplaceEdit (getCellIndex editor cell) 1
                 [changedCellDto kind language' mime cell]
               # changeKindEdits kind mime editor (Some language') rest))"

definition changeCellToKind ::
  "CellKind \<Rightarrow> INotebookActionContext \<Rightarrow> string option \<Rightarrow> string option
     \<Rightarrow> NotebookEditor \<Rightarrow> NotebookEditor" where
  "changeCellToKind kind context language mime notebookEditor =
     (if \<not> hasModel notebookEditor then notebookEditor
      else if isReadOnly notebookEditor then notebookEditor
      else (case (if context_ui context then context_cell context else None) of
              Some cell \<Rightarrow>
                (if cellKind cell = kind then notebookEditor
                 else (let idx = getCellIndex notebookEditor cell;
                           language' = (case language of
                                          None \<Rightarrow> firstAvailableLanguage notebookEditor
                                        | Some l \<Rightarrow> l);
                           edited = applyEdits
                             [CellReplaceEdit idx 1 [changedCellDto kind language' mime cell]]
                             True (currentSelectionState notebookEditor)
                             currentSelectionState (Some True) notebookEditor
                       in focusNotebookCell (cellAt edited idx)
                            (if editState cell = Editing then FocusEditor else FocusContainer)
                            edited))
            | None \<Rightarrow>
                (case context_selectedCells context of
                   Some selectedCells \<Rightarrow>
                     applyEdits (changeKindEdits kind mime notebookEditor language selectedCells)
                       True (currentSelectionState notebookEditor)
                       currentSelectionState (Some True) notebookEditor
                 | None \<Rightarrow> notebookEditor)))"

subsection \<open>runDeleteAction\<close>

definition singleCellState :: "int \<Rightarrow> ISelectionState" where
  "singleCellState i =
     \<lparr>state_focus = \<lparr>start = i, end' = i + 1\<rparr>,
      state_selections = [\<lparr>start = i, end' = i + 1\<rparr>]\<rparr>"

definition shiftRange :: "int \<Rightarrow> ICellRange \<Rightarrow> ICellRange" where
  "shiftRange d r = \<lparr>start = start r + d, end' = end' r + d\<rparr>"

text \<open>
  \<^verbatim>\<open>editor.cellAt(focus.start) === cell\<close> compares objects; cells are told apart by
  their handles. \<^verbatim>\<open>selections.reverse()\<close> reverses in place the array that
  \<^verbatim>\<open>editor.getSelections()\<close> returned, the editor's own: in that branch the
  \<^verbatim>\<open>editor.getSelections()\<close> of the compute-before Selection State reads the reversed
  selections.
\<close>

definition isCell :: "Cell option \<Rightarrow> Cell \<Rightarrow> bool" where
  "isCell found cell = (case found of None \<Rightarrow> False | Some c \<Rightarrow> handle c = handle cell)"

definition runDeleteAction :: "NotebookEditor \<Rightarrow> Cell \<Rightarrow> NotebookEditor" where
  "runDeleteAction editor cell =
     (let selections = getSelections editor;
          targetCellIndex = getCellIndex editor cell
      in case find (\<lambda>selection. start selection \<le> targetCellIndex
                                  \<and> targetCellIndex < end' selection) selections of
           Some containingSelection \<Rightarrow>
             (let edits = map (\<lambda>selection. CellReplaceEdit (start selection)
                                              (end' selection - start selection) [])
                              (rev selections);
                  nextCellAfterContainingSelection =
                    (if getLength editor \<le> end' containingSelection then None
                     else cellAt editor (end' containingSelection))
              in applyEdits edits True
                   \<lparr>state_focus = getFocus editor, state_selections = rev selections\<rparr>
                   (\<lambda>staged.
                      case nextCellAfterContainingSelection of
                        Some nextCell \<Rightarrow>
                          singleCellState
                            (findIndex (\<lambda>c. handle c = handle nextCell) (textModel_cells staged))
                      | None \<Rightarrow>
                          (if getLength staged \<noteq> 0 then singleCellState (getLength staged - 1)
                           else \<lparr>state_focus = \<lparr>start = 0, end' = 0\<rparr>,
                                 state_selections = [\<lparr>start = 0, end' = 0\<rparr>]\<rparr>))
                   None editor)
         | None \<Rightarrow>
             (let focus = getFocus editor;
                  edits = [CellReplaceEdit targetCellIndex 1 []];
                  finalSelections =
                    map (\<lambda>selection.
                           if end' selection \<le> targetCellIndex then selection
                           else if targetCellIndex < start selection then shiftRange (- 1) selection
                           else \<lparr>start = targetCellIndex, end' = targetCellIndex + 1\<rparr>)
                        selections
              in if isCell (cellAt editor (start focus)) cell
                 then (let newFocus = (if end' focus = getLength editor
                                       then shiftRange (- 1) focus else focus)
                       in applyEdits edits True (currentSelectionState editor)
                            (\<lambda>staged. \<lparr>state_focus = newFocus,
                                        state_selections = finalSelections\<rparr>)
                            None editor)
                 else (let newFocus = (if targetCellIndex < start focus
                                       then shiftRange (- 1) focus else focus)
                       in applyEdits edits True (currentSelectionState editor)
                            (\<lambda>staged. \<lparr>state_focus = newFocus,
                                        state_selections = finalSelections\<rparr>)
                            None editor)))"

subsection \<open>moveCellRange, copyCellRange, moveCellToIdx\<close>

datatype MoveDirection = Up | Down

definition revealFocusRange :: "NotebookEditor \<Rightarrow> NotebookEditor" where
  "revealFocusRange editor =
     revealCellRangeInView
       (case getSelections editor of s # _ \<Rightarrow> s | [] \<Rightarrow> getFocus editor) editor"

text \<open>
  \<^verbatim>\<open>expandCellRangesWithHiddenCells\<close> (\<^verbatim>\<open>notebookBrowser\<close>) is a parameter: it widens the
  selections by the cells a folded region hides.
\<close>

definition moveCellRange ::
  "(NotebookEditor \<Rightarrow> ICellRange list \<Rightarrow> ICellRange list) \<Rightarrow> MoveDirection
     \<Rightarrow> NotebookEditor \<Rightarrow> NotebookEditor" where
  "moveCellRange expandCellRangesWithHiddenCells direction editor =
     (if \<not> hasModel editor then editor
      else if isReadOnly editor then editor
      else (case expandCellRangesWithHiddenCells editor (getSelections editor) of
              [] \<Rightarrow> editor
            | rng # _ \<Rightarrow>
                (if start rng = end' rng then editor
                 else (case direction of
                   Up \<Rightarrow>
                     (if start rng = 0 then editor
                      else (let indexAbove = start rng - 1;
                                finalSelection = \<lparr>start = start rng - 1, end' = end' rng - 1\<rparr>;
                                focus = getFocus editor;
                                newFocus = (if cellRangeContains rng focus
                                            then shiftRange (- 1) focus
                                            else \<lparr>start = start rng - 1, end' = start rng\<rparr>)
                            in revealFocusRange
                                 (applyEdits [CellMoveEdit indexAbove 1 (end' rng - 1)] True
                                    (currentSelectionState editor)
                                    (\<lambda>staged. \<lparr>state_focus = newFocus,
                                                state_selections = [finalSelection]\<rparr>)
                                    None editor)))
                 | Down \<Rightarrow>
                     (if getLength editor \<le> end' rng then editor
                      else (let indexBelow = end' rng;
                                finalSelection = \<lparr>start = start rng + 1, end' = end' rng + 1\<rparr>;
                                focus = getFocus editor;
                                newFocus = (if cellRangeContains rng focus
                                            then shiftRange 1 focus
                                            else \<lparr>start = start rng + 1, end' = start rng + 2\<rparr>)
                            in revealFocusRange
                                 (applyEdits [CellMoveEdit indexBelow 1 (start rng)] True
                                    (currentSelectionState editor)
                                    (\<lambda>staged. \<lparr>state_focus = newFocus,
                                                state_selections = [finalSelection]\<rparr>)
                                    None editor)))))))"

text \<open>
  \<^verbatim>\<open>cellRangesToIndexes([range]).map(index => cloneNotebookCellTextModel(editor.cellAt(index)!.model))\<close>:
  reading \<^verbatim>\<open>.model\<close> of a cell that is not there is a \<^verbatim>\<open>TypeError\<close>.
\<close>

fun cloneCellsAt :: "NotebookEditor \<Rightarrow> int list \<Rightarrow> error + ICellDto list" where
  "cloneCellsAt editor [] = Inr []"
| "cloneCellsAt editor (index # rest) =
     (case cellAt editor index of
        None \<Rightarrow> Inl TypeError
      | Some cell \<Rightarrow>
          (case cloneCellsAt editor rest of
             Inl e \<Rightarrow> Inl e
           | Inr dtos \<Rightarrow> Inr (cloneNotebookCellTextModel cell # dtos)))"

definition copyCellRange ::
  "(NotebookEditor \<Rightarrow> ICellRange list \<Rightarrow> ICellRange list) \<Rightarrow> INotebookCellActionContext
     \<Rightarrow> MoveDirection \<Rightarrow> NotebookEditor \<Rightarrow> error + NotebookEditor" where
  "copyCellRange expandCellRangesWithHiddenCells context direction editor =
     (if \<not> hasModel editor then Inr editor
      else if isReadOnly editor then Inr editor
      else (case (if cellContext_ui context
                  then (let targetCellIndex = getCellIndex editor (cellContext_cell context)
                        in [\<lparr>start = targetCellIndex, end' = targetCellIndex + 1\<rparr>])
                  else expandCellRangesWithHiddenCells editor (getSelections editor)) of
              [] \<Rightarrow> Inr editor
            | rng # _ \<Rightarrow>
                (if start rng = end' rng then Inr editor
                 else (let focus = getFocus editor; selections = getSelections editor
                       in case cloneCellsAt editor (cellRangesToIndexes [rng]) of
                            Inl e \<Rightarrow> Inl e
                          | Inr cells \<Rightarrow>
                              (case direction of
                                 Up \<Rightarrow>
                                   Inr (applyEdits [CellReplaceEdit (end' rng) 0 cells] True
                                          \<lparr>state_focus = focus, state_selections = selections\<rparr>
                                          (\<lambda>staged. \<lparr>state_focus = focus,
                                                      state_selections = selections\<rparr>)
                                          None editor)
                               | Down \<Rightarrow>
                                   (let countDelta = int (length cells);
                                        newFocus = (if cellContext_ui context then focus
                                                    else shiftRange countDelta focus);
                                        newSelections =
                                          (if cellContext_ui context then selections
                                           else [shiftRange countDelta rng])
                                    in Inr (revealFocusRange
                                         (applyEdits [CellReplaceEdit (end' rng) 0 cells] True
                                            \<lparr>state_focus = focus, state_selections = selections\<rparr>
                                            (\<lambda>staged. \<lparr>state_focus = newFocus,
                                                        state_selections = newSelections\<rparr>)
                                            None editor))))))))"

text \<open>
  \<^verbatim>\<open>moveCellToIdx\<close>: \<^verbatim>\<open>newIdx\<close> is "in an index scheme for the state of the tree after
  the current cell has been removed"; \<^verbatim>\<open>pushedToUndoStack\<close> is not used by the body.
\<close>

definition moveCellToIdx ::
  "NotebookEditor \<Rightarrow> int \<Rightarrow> int \<Rightarrow> int \<Rightarrow> bool \<Rightarrow> bool \<Rightarrow> NotebookEditor \<times> bool" where
  "moveCellToIdx editor index len newIdx synchronous pushedToUndoStack =
     (case cellAt editor index of
        None \<Rightarrow> (editor, False)
      | Some viewCell \<Rightarrow>
          (applyEdits [CellMoveEdit index len newIdx] synchronous
             (currentSelectionState editor) (\<lambda>staged. singleCellState newIdx) None editor,
           True))"

subsection \<open>joinNotebookCells\<close>

datatype JoinDirection = Above | Below

datatype ResourceEdit =
    ResourceTextEdit nat Range string
  | ResourceCellEdit ResourceNotebookCellEdit

record JoinResult =
  join_edits :: "ResourceEdit list"
  join_cell :: Cell
  join_endFocus :: ICellRange
  join_endSelections :: "ICellRange list"

text \<open>\<^verbatim>\<open>constraint && cell.cellKind !== constraint\<close>; both cell kinds are truthy numbers.\<close>

definition kindMismatch :: "CellKind option \<Rightarrow> Cell \<Rightarrow> bool" where
  "kindMismatch constraint cell =
     (case constraint of None \<Rightarrow> False | Some kind \<Rightarrow> cellKind cell \<noteq> kind)"

definition joinedContent :: "Cell list \<Rightarrow> string" where
  "joinedContent cells = concat (map (\<lambda>cell. getEOL (textBuffer cell) @ getText cell) cells)"

definition endOfBuffer :: "TextBuffer \<Rightarrow> Range" where
  "endOfBuffer tb =
     (let lineCount = getLineCount tb;
          lastLineEndColumn = getLineLength tb lineCount
      in mkRange lineCount (lastLineEndColumn + 1) lineCount (lastLineEndColumn + 1))"

text \<open>
  Reading \<^verbatim>\<open>above.cellKind\<close>, \<^verbatim>\<open>above.textBuffer\<close> or \<^verbatim>\<open>cl.textBuffer\<close> of the
  neighbour when \<^verbatim>\<open>cellAt\<close> gave \<^verbatim>\<open>undefined\<close> is a \<^verbatim>\<open>TypeError\<close>.
\<close>

definition joinNotebookCells ::
  "NotebookEditor \<Rightarrow> ICellRange \<Rightarrow> JoinDirection \<Rightarrow> CellKind option
     \<Rightarrow> error + JoinResult option" where
  "joinNotebookCells editor rng direction constraint =
     (if isReadOnly editor then Inr None
      else (let cells = getCellsInRange editor rng
            in if cells = [] then Inr None
               else if start rng = 0 \<and> direction = Above then Inr None
               else if end' rng = getLength editor \<and> direction = Below then Inr None
               else if list_ex (kindMismatch constraint) cells then Inr None
               else (case direction of
                 Above \<Rightarrow>
                   (case cellAt editor (start rng - 1) of
                      None \<Rightarrow> Inl TypeError
                    | Some aboveCell \<Rightarrow>
                        (if kindMismatch constraint aboveCell then Inr None
                         else Inr (Some
                           \<lparr>join_edits =
                              [ResourceTextEdit (handle aboveCell) (endOfBuffer (textBuffer aboveCell))
                                 (joinedContent cells),
                               ResourceCellEdit
                                 \<lparr>resource = textModel_uri editor,
                                  cellEdit = CellReplaceEdit (start rng)
                                               (end' rng - start rng) []\<rparr>],
                            join_cell = aboveCell,
                            join_endFocus = \<lparr>start = start rng - 1, end' = start rng\<rparr>,
                            join_endSelections =
                              [\<lparr>start = start rng - 1, end' = start rng\<rparr>]\<rparr>)))
               | Below \<Rightarrow>
                   (case cellAt editor (end' rng) of
                      None \<Rightarrow> Inl TypeError
                    | Some belowCell \<Rightarrow>
                        (if kindMismatch constraint belowCell then Inr None
                         else (let cell = hd cells; restCells = tl cells @ [belowCell]
                               in Inr (Some
                                 \<lparr>join_edits =
                                    [ResourceTextEdit (handle cell) (endOfBuffer (textBuffer cell))
                                       (joinedContent restCells),
                                     ResourceCellEdit
                                       \<lparr>resource = textModel_uri editor,
                                        cellEdit = CellReplaceEdit (start rng + 1)
                                                     (end' rng - start rng) []\<rparr>],
                                  join_cell = cell,
                                  join_endFocus = \<lparr>start = start rng, end' = start rng + 1\<rparr>,
                                  join_endSelections =
                                    [\<lparr>start = start rng, end' = start rng + 1\<rparr>]\<rparr>)))))))"

subsection \<open>Splitting a cell: computeCellLinesContents\<close>

definition positionKey :: "IPosition \<Rightarrow> int \<times> int" where
  "positionKey p = (lineNumber p, column p)"

text \<open>
  \<^verbatim>\<open>splitPoints.sort(...)\<close> orders by line, then by column; the sort is stable, and so
  is \<open>sort_key\<close>. (It also leaves the caller's array sorted, which no result here
  depends on.)
\<close>

definition sortSplitPoints :: "IPosition list \<Rightarrow> IPosition list" where
  "sortSplitPoints splitPoints = sort_key positionKey splitPoints"

definition pushIfAbsent :: "IPosition list \<Rightarrow> IPosition \<Rightarrow> IPosition list" where
  "pushIfAbsent positions p =
     (if positions = [] \<or> lineNumber (last positions) \<noteq> lineNumber p
         \<or> column (last positions) \<noteq> column p
      then positions @ [p] else positions)"

text \<open>
  The body of the loop over the split points: a split point right after the last character
  of a line that is not empty and not the last one becomes the first position of the next
  line.
\<close>

definition adjustSplitPoint :: "TextBuffer \<Rightarrow> IPosition \<Rightarrow> IPosition" where
  "adjustSplitPoint tb sp =
     (if getLineLength tb (lineNumber sp) + 1 = column sp \<and> column sp \<noteq> 1
         \<and> lineNumber sp < getLineCount tb
      then Position (lineNumber sp + 1) 1 else sp)"

fun boundariesLoop :: "TextBuffer \<Rightarrow> IPosition list \<Rightarrow> IPosition list \<Rightarrow> IPosition list" where
  "boundariesLoop tb boundaries [] = boundaries"
| "boundariesLoop tb boundaries (sp # rest) =
     boundariesLoop tb (pushIfAbsent boundaries (adjustSplitPoint tb sp)) rest"

definition modelStart :: IPosition where
  "modelStart = Position 1 1"

definition modelEnd :: "TextBuffer \<Rightarrow> IPosition" where
  "modelEnd tb = (let lineCnt = getLineCount tb in Position lineCnt (getLineLength tb lineCnt + 1))"

definition splitPointsToBoundaries :: "IPosition list \<Rightarrow> TextBuffer \<Rightarrow> IPosition list option" where
  "splitPointsToBoundaries splitPoints tb =
     (let boundaries = boundariesLoop tb [] (sortSplitPoints splitPoints)
      in if boundaries = [] then None
         else Some ([modelStart] @ boundaries @ [modelEnd tb]))"

fun lineModels :: "TextBuffer \<Rightarrow> IPosition list \<Rightarrow> string list" where
  "lineModels tb (startPos # endPos # rest) =
     getValueInRange tb
         (mkRange (lineNumber startPos) (column startPos) (lineNumber endPos) (column endPos))
       # lineModels tb (endPos # rest)"
| "lineModels tb [startPos] = []"
| "lineModels tb [] = []"

definition computeCellLinesContents :: "Cell \<Rightarrow> IPosition list \<Rightarrow> string list option" where
  "computeCellLinesContents cell splitPoints =
     (case splitPointsToBoundaries splitPoints (textBuffer cell) of
        None \<Rightarrow> None
      | Some rangeBoundaries \<Rightarrow> Some (lineModels (textBuffer cell) rangeBoundaries))"

subsection \<open>insertCell, insertCellAtIndex\<close>

definition insertCellAtIndex ::
  "NotebookEditor \<Rightarrow> int \<Rightarrow> string \<Rightarrow> string \<Rightarrow> CellKind \<Rightarrow> string option \<Rightarrow> string list
     \<Rightarrow> bool \<Rightarrow> bool \<Rightarrow> NotebookEditor \<times> Cell option" where
  "insertCellAtIndex viewModel index source language type metadata outputs synchronous pushUndoStop =
     (let endSelections = singleCellState index;
          edited = applyEdits
            [CellReplaceEdit index 0
               [\<lparr>dto_cellKind = type, dto_source = source, dto_language = language,
                 dto_mime = None, dto_outputs = outputs, dto_metadata = metadata\<rparr>]]
            synchronous (currentSelectionState viewModel) (\<lambda>staged. endSelections)
            (Some pushUndoStop) viewModel
      in (edited, cellAt edited index))"

text \<open>
  What \<^verbatim>\<open>insertCell\<close> asks of its other collaborators: \<^verbatim>\<open>modeService.getRegisteredModes()\<close>,
  \<^verbatim>\<open>viewModel.getNextVisibleCellIndex\<close> and \<^verbatim>\<open>viewModel.nearestCodeCellIndex\<close>.
\<close>

record InsertHost =
  getRegisteredModes :: "string list"
  getNextVisibleCellIndex :: "int \<Rightarrow> int"
  nearestCodeCellIndex :: "int \<Rightarrow> int"

text \<open>\<^verbatim>\<open>x || 'plaintext'\<close>: the empty string is falsy too.\<close>

definition orElse :: "string option \<Rightarrow> string \<Rightarrow> string" where
  "orElse x d = (case x of None \<Rightarrow> d | Some l \<Rightarrow> if l = [] then d else l)"

definition insertLanguage ::
  "InsertHost \<Rightarrow> NotebookEditor \<Rightarrow> int \<Rightarrow> CellKind \<Rightarrow> JoinDirection \<Rightarrow> error + string" where
  "insertLanguage host editor index type direction =
     (if type = Code
      then (let supported = (case supportedLanguages editor of
                               Some ls \<Rightarrow> ls | None \<Rightarrow> getRegisteredModes host);
                defaultLanguage = orElse (case supported of [] \<Rightarrow> None | l # _ \<Rightarrow> Some l)
                                    ''plaintext'';
                chosen =
                  (case cellAt editor index of
                     Some cell \<Rightarrow>
                       (if cellKind cell = Code then Inr (cell_language cell)
                        else (let nearest = nearestCodeCellIndex host index
                              in if - 1 < nearest
                                 then (case cellAt editor nearest of
                                         None \<Rightarrow> Inl TypeError
                                       | Some codeCell \<Rightarrow> Inr (cell_language codeCell))
                                 else Inr defaultLanguage))
                   | None \<Rightarrow>
                       (if direction = Above
                        then Inr (orElse (map_option cell_language
                                            (find (\<lambda>cell. cellKind cell = Code)
                                               (textModel_cells editor)))
                                    defaultLanguage)
                        else Inr defaultLanguage))
            in case chosen of
                 Inl e \<Rightarrow> Inl e
               | Inr language \<Rightarrow>
                   Inr (if language \<in> set supported then language else defaultLanguage))
      else Inr ''markdown'')"

definition insertCell ::
  "InsertHost \<Rightarrow> NotebookEditor \<Rightarrow> int \<Rightarrow> CellKind \<Rightarrow> JoinDirection \<Rightarrow> string \<Rightarrow> bool
     \<Rightarrow> error + NotebookEditor \<times> Cell option" where
  "insertCell host editor index type direction initialText ui =
     (if isReadOnly editor then Inr (editor, None)
      else (let cell = cellAt editor index;
                nextIndex = (if ui then getNextVisibleCellIndex host index else index + 1)
            in case insertLanguage host editor index type direction of
                 Inl e \<Rightarrow> Inl e
               | Inr language \<Rightarrow>
                   (let insertIndex = (case cell of
                                         Some c \<Rightarrow> if direction = Above then index else nextIndex
                                       | None \<Rightarrow> index)
                    in Inr (insertCellAtIndex editor insertIndex initialText language type
                              None [] True True))))"

subsection \<open>Concrete hosts and batches\<close>

definition neverCancelled :: "nat \<Rightarrow> bool" where
  "neverCancelled k = False"

definition cancelledFrom :: "nat \<Rightarrow> nat \<Rightarrow> bool" where
  "cancelledFrom n k = (n \<le> k)"

definition allOpen :: "string \<Rightarrow> bool" where
  "allOpen r = True"

definition batchAB :: "ResourceNotebookCellEdit list" where
  "batchAB = [\<lparr>resource = ''b'', cellEdit = CellReplaceEdit 0 1 []\<rparr>,
              \<lparr>resource = ''a'', cellEdit = CellMoveEdit 0 1 1\<rparr>,
              \<lparr>resource = ''b'', cellEdit = CellOutputEdit\<rparr>]"

text \<open>
  A grouping to run the examples with: the edits put in the order of the comparison (a
  stable insertion sort), then cut into runs of edits that compare equal to the first edit
  of the run.
\<close>

fun insertBy :: "('a \<Rightarrow> 'a \<Rightarrow> int) \<Rightarrow> 'a \<Rightarrow> 'a list \<Rightarrow> 'a list" where
  "insertBy cmp x [] = [x]"
| "insertBy cmp x (y # ys) = (if cmp x y \<le> 0 then x # y # ys else y # insertBy cmp x ys)"

function runsBy :: "('a \<Rightarrow> 'a \<Rightarrow> int) \<Rightarrow> 'a list \<Rightarrow> 'a list list" where
  "runsBy cmp [] = []"
| "runsBy cmp (x # xs) =
     (x # takeWhile (\<lambda>y. cmp x y = 0) xs) # runsBy cmp (dropWhile (\<lambda>y. cmp x y = 0) xs)"
  by pat_completeness auto
termination
  by (relation "measure (\<lambda>(cmp, xs). length xs)")
     (auto simp: length_dropWhile_le less_Suc_eq_le)

definition sortedRuns :: GroupBy where
  "sortedRuns edits cmp = runsBy cmp (foldr (insertBy cmp) edits [])"

definition sessionNode :: IDebugSession where
  "sessionNode = \<lparr>session_id = ''s1'', configuration_type = ''node''\<rparr>"

definition idLauncher :: "string IDebugAdapterFactory" where
  "idLauncher session = session_id session"

definition noFactories :: "string AdapterManager" where
  "noFactories = \<lparr>debugAdapterFactories = Map.empty\<rparr>"

definition textCell :: "nat \<Rightarrow> CellKind \<Rightarrow> string list \<Rightarrow> Cell" where
  "textCell h kind ls =
     \<lparr>handle = h, cellKind = kind, textBuffer = \<lparr>buffer_lines = ls, buffer_eol = [CHR 0x0A]\<rparr>,
      cell_language = ''python'', cell_mime = None, cell_outputs = [], cell_metadata = None,
      editState = Preview\<rparr>"

definition editorOf :: "Cell list \<Rightarrow> ICellRange \<Rightarrow> ICellRange list \<Rightarrow> NotebookEditor" where
  "editorOf cs f sels =
     \<lparr>hasModel = True, isReadOnly = False, textModel_uri = ''nb'', textModel_cells = cs,
      nextHandle = 100, editor_focus = f, editor_selections = sels,
      supportedLanguages = Some [''python''], undoStack = [], viewCalls = []\<rparr>"

definition threeCells :: "Cell list" where
  "threeCells = [textCell 0 Code [''a''], textCell 1 Code [''b''], textCell 2 Markup [''c'']]"

definition editor3 :: NotebookEditor where
  "editor3 = editorOf threeCells \<lparr>start = 1, end' = 2\<rparr> [\<lparr>start = 1, end' = 2\<rparr>]"

definition readOnlyEditor :: NotebookEditor where
  "readOnlyEditor = editor3\<lparr>isReadOnly := True\<rparr>"

definition absentEditor :: NotebookEditor where
  "absentEditor = editor3\<lparr>hasModel := False\<rparr>"

definition noExpand :: "NotebookEditor \<Rightarrow> ICellRange list \<Rightarrow> ICellRange list" where
  "noExpand editor ranges = ranges"

definition uiContext :: INotebookActionContext where
  "uiContext = \<lparr>context_ui = True, context_cell = Some (textCell 1 Code [''b'']),
                 context_selectedCells = None\<rparr>"

definition uiCellContext :: INotebookCellActionContext where
  "uiCellContext = \<lparr>cellContext_ui = True, cellContext_cell = textCell 1 Code [''b'']\<rparr>"

definition nextIndex :: "int \<Rightarrow> int" where
  "nextIndex i = i + 1"

definition noCodeCell :: "int \<Rightarrow> int" where
  "noCodeCell i = - 1"

definition plainHost :: InsertHost where
  "plainHost = \<lparr>getRegisteredModes = [''python''], getNextVisibleCellIndex = nextIndex,
                 nearestCodeCellIndex = noCodeCell\<rparr>"

subsection \<open>When a join is rejected\<close>

definition adjacentCell :: "NotebookEditor \<Rightarrow> ICellRange \<Rightarrow> JoinDirection \<Rightarrow> Cell option" where
  "adjacentCell editor rng direction =
     (case direction of
        Above \<Rightarrow> cellAt editor (start rng - 1)
      | Below \<Rightarrow> cellAt editor (end' rng))"

definition spansBoundary :: "NotebookEditor \<Rightarrow> ICellRange \<Rightarrow> JoinDirection \<Rightarrow> bool" where
  "spansBoundary editor rng direction \<longleftrightarrow>
     (direction = Above \<and> start rng = 0) \<or> (direction = Below \<and> end' rng = getLength editor)"

definition kindViolated ::
  "NotebookEditor \<Rightarrow> ICellRange \<Rightarrow> JoinDirection \<Rightarrow> CellKind option \<Rightarrow> bool" where
  "kindViolated editor rng direction constraint \<longleftrightarrow>
     list_ex (kindMismatch constraint) (getCellsInRange editor rng)
     \<or> (case adjacentCell editor rng direction of
           None \<Rightarrow> False
         | Some c \<Rightarrow> kindMismatch constraint c)"

text \<open>The two grounds for rejection that the specification names.\<close>

definition claimedRejection ::
  "NotebookEditor \<Rightarrow> ICellRange \<Rightarrow> JoinDirection \<Rightarrow> CellKind option \<Rightarrow> bool" where
  "claimedRejection editor rng direction constraint \<longleftrightarrow>
     spansBoundary editor rng direction \<or> kindViolated editor rng direction constraint"

text \<open>All the grounds the function has.\<close>

definition joinRejected ::
  "NotebookEditor \<Rightarrow> ICellRange \<Rightarrow> JoinDirection \<Rightarrow> CellKind option \<Rightarrow> bool" where
  "joinRejected editor rng direction constraint \<longleftrightarrow>
     isReadOnly editor \<or> getCellsInRange editor rng = []
     \<or> claimedRejection editor rng direction constraint"


subsection \<open>The cells of a range\<close>

definition rangeCells :: "NotebookEditor \<Rightarrow> ICellRange \<Rightarrow> Cell list" where
  "rangeCells editor rng =
     take (nat (end' rng - start rng)) (drop (nat (start rng)) (textModel_cells editor))"


subsection \<open>The count of a batch and ranges within the Document\<close>

text \<open>
  What an edit removes and inserts, as the specification counts it; a Move takes \<open>length\<close>
  cells out and puts as many back.
\<close>

fun removedCells :: "ICellEditOperation \<Rightarrow> int" where
  "removedCells (CellReplaceEdit index count dtos) = count"
| "removedCells (CellMoveEdit index len newIdx) = len"
| "removedCells _ = 0"

fun insertedCells :: "ICellEditOperation \<Rightarrow> int" where
  "insertedCells (CellReplaceEdit index count dtos) = int (length dtos)"
| "insertedCells (CellMoveEdit index len newIdx) = len"
| "insertedCells _ = 0"

text \<open>\<open>originalCount - sum(removed) + sum(inserted)\<close>\<close>

definition expectedCount :: "int \<Rightarrow> ICellEditOperation list \<Rightarrow> int" where
  "expectedCount originalCount edits =
     originalCount - sum_list (map removedCells edits) + sum_list (map insertedCells edits)"

text \<open>
  An edit is in range for a Document of \<open>n\<close> cells; a batch is in range when each of its
  edits is, at the count the Document has when the edit's turn comes.
\<close>

fun validEdit :: "int \<Rightarrow> ICellEditOperation \<Rightarrow> bool" where
  "validEdit n (CellReplaceEdit index count dtos) \<longleftrightarrow> 0 \<le> index \<and> 0 \<le> count \<and> index + count \<le> n"
| "validEdit n (CellMoveEdit index len newIdx) \<longleftrightarrow>
     0 \<le> index \<and> 0 \<le> len \<and> index + len \<le> n \<and> 0 \<le> newIdx \<and> newIdx + len \<le> n"
| "validEdit n _ \<longleftrightarrow> True"

fun validBatch :: "int \<Rightarrow> ICellEditOperation list \<Rightarrow> bool" where
  "validBatch n [] \<longleftrightarrow> True"
| "validBatch n (edit # rest) \<longleftrightarrow>
     validEdit n edit \<and> validBatch (n - removedCells edit + insertedCells edit) rest"

text \<open>
  A range lies within \<open>[0, n]\<close>; all ranges of a Selection State do; all ranges of the
  editor's Selection State lie within its Document.
\<close>

definition rangeWithin :: "ICellRange \<Rightarrow> int \<Rightarrow> bool" where
  "rangeWithin r n \<longleftrightarrow> 0 \<le> start r \<and> start r \<le> end' r \<and> end' r \<le> n"

definition stateWithin :: "ISelectionState \<Rightarrow> int \<Rightarrow> bool" where
  "stateWithin state n \<longleftrightarrow>
     rangeWithin (state_focus state) n \<and> list_all (\<lambda>r. rangeWithin r n) (state_selections state)"

definition selectionWithin :: "NotebookEditor \<Rightarrow> bool" where
  "selectionWithin editor \<longleftrightarrow>
     rangeWithin (getFocus editor) (getLength editor)
     \<and> list_all (\<lambda>r. rangeWithin r (getLength editor)) (getSelections editor)"

text \<open>
  The Selection State \<^verbatim>\<open>runDeleteAction\<close> computes when the cell at index \<open>t\<close>, which is
  in no selection, is deleted: a selection before the cell stays, one after it moves up by
  one; the focus moves up by one when it is on the deleted cell at the end of the
  Document, or after the deleted cell.
\<close>

definition stateAfterDelete :: "NotebookEditor \<Rightarrow> Cell \<Rightarrow> ISelectionState" where
  "stateAfterDelete editor cell =
     (let t = getCellIndex editor cell; focus = getFocus editor
      in \<lparr>state_focus =
            (if isCell (cellAt editor (start focus)) cell
             then (if end' focus = getLength editor then shiftRange (- 1) focus else focus)
             else (if t < start focus then shiftRange (- 1) focus else focus)),
          state_selections =
            map (\<lambda>selection. if end' selection \<le> t then selection
                              else shiftRange (- 1) selection)
                (getSelections editor)\<rparr>)"

definition validEdits :: "ICellEditOperation list" where
  "validEdits = [CellReplaceEdit 1 1 [], CellMoveEdit 0 1 1]"

subsection \<open>Positions of a buffer\<close>

text \<open>
  A position of the buffer: a line of the buffer and a column from 1 to the line's length
  plus one. A buffer has at least one line and a line break that is not empty. A position
  is at the end of its line when its column is the line's length plus one.
\<close>

definition validPosition :: "TextBuffer \<Rightarrow> IPosition \<Rightarrow> bool" where
  "validPosition tb p \<longleftrightarrow>
     1 \<le> lineNumber p \<and> lineNumber p \<le> getLineCount tb
     \<and> 1 \<le> column p \<and> column p \<le> getLineLength tb (lineNumber p) + 1"

definition wellFormedBuffer :: "TextBuffer \<Rightarrow> bool" where
  "wellFormedBuffer tb \<longleftrightarrow> buffer_lines tb \<noteq> [] \<and> buffer_eol tb \<noteq> []"

definition atEndOfLine :: "TextBuffer \<Rightarrow> IPosition \<Rightarrow> bool" where
  "atEndOfLine tb p \<longleftrightarrow> column p = getLineLength tb (lineNumber p) + 1"

definition oneLineCell :: Cell where
  "oneLineCell = textCell 0 Code [''ab'']"

definition emptyLastLineCell :: Cell where
  "emptyLastLineCell = textCell 0 Code [''ab'', []]"

definition twoLineCell :: Cell where
  "twoLineCell = textCell 0 Code [''ab'', ''cd'']"

section \<open>Theorems\<close>

subsection \<open>The debug adapter lookup\<close>

lemma fold_register:
  "fold (\<lambda>debugType fs. fs(debugType \<mapsto> l)) ts fs0 t = (if t \<in> set ts then Some l else fs0 t)"
  by (induction ts arbitrary: fs0) auto

text \<open>
  C9. For a session whose configuration type has no registered factory,
  \<^verbatim>\<open>createDebugAdapter\<close> returns \<^verbatim>\<open>undefined\<close> (there is no raising path); when a
  factory is registered for the type, the adapter is the one that factory creates for the
  session. A type is registered by \<^verbatim>\<open>registerDebugAdapterFactory\<close>.
\<close>

theorem createDebugAdapter_lookup:
  "(debugAdapterFactories m (configuration_type session) = None
      \<longrightarrow> createDebugAdapter m session = None)
   \<and> (\<forall>factory. debugAdapterFactories m (configuration_type session) = Some factory
      \<longrightarrow> createDebugAdapter m session = Some (factory session))
   \<and> (configuration_type session \<in> set debugTypes
      \<longrightarrow> createDebugAdapter (registerDebugAdapterFactory debugTypes launcher m) session
          = Some (launcher session))"
  by (simp add: createDebugAdapter_def registerDebugAdapterFactory_def fold_register)

theorem createDebugAdapter_lookup_witness:
  "debugAdapterFactories noFactories (configuration_type sessionNode) = None
   \<and> createDebugAdapter noFactories sessionNode = None
   \<and> configuration_type sessionNode \<in> set [''node'', ''python'']
   \<and> createDebugAdapter
        (registerDebugAdapterFactory [''node'', ''python''] idLauncher noFactories) sessionNode
       = Some ''s1''"
proof -
  have none: "debugAdapterFactories noFactories (configuration_type sessionNode) = None"
    by (simp add: noFactories_def)
  have reg: "configuration_type sessionNode \<in> set [''node'', ''python'']"
    by (simp add: sessionNode_def)
  have run: "idLauncher sessionNode = ''s1''"
    by (simp add: idLauncher_def sessionNode_def)
  note inst = createDebugAdapter_lookup
                [of noFactories sessionNode "[''node'', ''python'']" idLauncher]
  from inst none have a: "createDebugAdapter noFactories sessionNode = None"
    by blast
  from inst reg have b: "createDebugAdapter
        (registerDebugAdapterFactory [''node'', ''python''] idLauncher noFactories) sessionNode
       = Some (idLauncher sessionNode)"
    by blast
  from none reg a b run show ?thesis by simp
qed

subsection \<open>Bulk cell edits\<close>

lemma convertLoop_acc: "convertLoop acc edits = acc"
  by (induction edits) (auto split: CellEditType.splits)

lemma applyLoop_calls_empty:
  "ApplyCellEdits r es \<in> set (applyLoop token fnd k groups) \<Longrightarrow> es = []"
proof (induction groups arbitrary: k)
  case Nil
  then show ?case by simp
next
  case (Cons g groups)
  then show ?case
    by (auto simp: convertToCellEdit_def convertLoop_acc split: if_splits list.splits)
qed

lemmas batch_eval =
  BulkCellEdits_apply_def sortedRuns_def batchAB_def compareResource_def compare_def
  cancelledFrom_def neverCancelled_def allOpen_def convertToCellEdit_def

text \<open>
  C10. \<^verbatim>\<open>convertToCellEdit\<close> returns the empty list for every input, so every call of
  \<^verbatim>\<open>editor.applyCellEdits\<close> that \<^verbatim>\<open>BulkCellEdits.apply\<close> makes passes an empty edit
  list, whatever edits it was constructed with and however they are grouped.
\<close>

theorem convertToCellEdit_always_empty:
  "convertToCellEdit edits = []
   \<and> (\<forall>r es. ApplyCellEdits r es
                 \<in> set (BulkCellEdits_apply groupBy token findNotebookEditor batch)
        \<longrightarrow> es = [])"
  by (auto simp: convertToCellEdit_def convertLoop_acc BulkCellEdits_apply_def
           dest: applyLoop_calls_empty)

theorem convertToCellEdit_always_empty_witness:
  "ApplyCellEdits ''a'' (convertToCellEdit [CellMoveEdit 0 1 1])
      \<in> set (BulkCellEdits_apply sortedRuns neverCancelled allOpen batchAB)
   \<and> convertToCellEdit [CellMoveEdit 0 1 1] = []"
proof -
  have called: "ApplyCellEdits ''a'' (convertToCellEdit [CellMoveEdit 0 1 1])
      \<in> set (BulkCellEdits_apply sortedRuns neverCancelled allOpen batchAB)"
    by (simp add: batch_eval)
  from convertToCellEdit_always_empty
         [of "[CellMoveEdit 0 1 1]" sortedRuns neverCancelled allOpen batchAB]
    called
  show ?thesis by blast
qed

lemma applyLoop_cancel:
  "applyLoop token fnd k groups =
     applyLoop (\<lambda>k. False) fnd k'
       (take (length (takeWhile (\<lambda>j. \<not> token j) [k..<k + length groups])) groups)"
proof (induction groups arbitrary: k k')
  case Nil
  then show ?case by simp
next
  case (Cons g groups)
  have upt: "[k..<Suc (k + length groups)] = k # [Suc k..<Suc (k + length groups)]"
    by (subst upt_rec) simp
  show ?case
  proof (cases "token k")
    case True
    then show ?thesis by (simp add: upt del: upt_Suc)
  next
    case False
    then show ?thesis
      using Cons.IH[of "Suc k" "Suc k'"] by (simp add: upt del: upt_Suc split: list.splits)
  qed
qed

lemma neverCancelled_eq: "neverCancelled = (\<lambda>k. False)"
  by (rule ext) (simp add: neverCancelled_def)

text \<open>
  C3. The token is read once before each per-notebook group. The run applies exactly the
  groups that come before the first read that sees the cancellation, each of them as an
  uncancelled run would (their effects stay: nothing is rolled back), and no group from
  that read on. This holds however \<^verbatim>\<open>groupBy\<close> cuts the batch into groups.
\<close>

theorem apply_stops_at_cancellation:
  "BulkCellEdits_apply groupBy token findNotebookEditor edits =
     applyLoop neverCancelled findNotebookEditor 0
       (take (groupsBeforeCancel token (length (groupBy edits compareResource)))
          (groupBy edits compareResource))"
  using applyLoop_cancel [of token findNotebookEditor 0 "groupBy edits compareResource" 0]
  by (simp add: BulkCellEdits_apply_def groupsBeforeCancel_def neverCancelled_eq)










subsection \<open>Read-only and absent Documents\<close>

lemmas editor_eval =
  editor3_def editorOf_def threeCells_def textCell_def readOnlyEditor_def absentEditor_def
  getSelections_def getFocus_def getLength_def cellAt_def getCellsInRange_def getCellIndex_def

text \<open>
  C8. When the editor has no model or is read-only, \<^verbatim>\<open>changeCellToKind\<close>,
  \<^verbatim>\<open>moveCellRange\<close> and \<^verbatim>\<open>copyCellRange\<close> return at once, raise nothing and leave the
  editor, its Document included, as it was. \<^verbatim>\<open>joinNotebookCells\<close> and \<^verbatim>\<open>insertCell\<close>
  take an active editor, one that has its model by its type; when it is read-only they
  return \<^verbatim>\<open>null\<close> and change nothing.
\<close>

theorem readonly_or_absent_noop:
  "(\<not> hasModel editor \<or> isReadOnly editor \<longrightarrow>
      changeCellToKind kind context language mime editor = editor
      \<and> moveCellRange expand direction editor = editor
      \<and> copyCellRange expand cellContext direction editor = Inr editor)
   \<and> (isReadOnly editor \<longrightarrow>
      joinNotebookCells editor rng joinDirection constraint = Inr None
      \<and> insertCell host editor index type joinDirection initialText ui = Inr (editor, None))"
  by (simp add: changeCellToKind_def moveCellRange_def copyCellRange_def
        joinNotebookCells_def insertCell_def)

theorem readonly_or_absent_noop_witness:
  "isReadOnly readOnlyEditor \<and> \<not> hasModel absentEditor
   \<and> changeCellToKind Markup uiContext None None readOnlyEditor = readOnlyEditor
   \<and> moveCellRange noExpand Up absentEditor = absentEditor
   \<and> copyCellRange noExpand uiCellContext Down absentEditor = Inr absentEditor
   \<and> joinNotebookCells readOnlyEditor \<lparr>start = 1, end' = 2\<rparr> Above None = Inr None
   \<and> insertCell plainHost readOnlyEditor 1 Code Below ''x'' False = Inr (readOnlyEditor, None)"
proof -
  have ro: "isReadOnly readOnlyEditor" by (simp add: readOnlyEditor_def)
  have ab: "\<not> hasModel absentEditor" by (simp add: absentEditor_def editor3_def editorOf_def)
  note t1 = readonly_or_absent_noop
     [of readOnlyEditor Markup uiContext None None noExpand Up uiCellContext
         "\<lparr>start = 1, end' = 2\<rparr>" Above None plainHost 1 Code "''x''" False]
  note t2 = readonly_or_absent_noop
     [of absentEditor Markup uiContext None None noExpand Up uiCellContext
         "\<lparr>start = 1, end' = 2\<rparr>" Above None plainHost 1 Code "''x''" False]
  note t3 = readonly_or_absent_noop
     [of absentEditor Markup uiContext None None noExpand Down uiCellContext
         "\<lparr>start = 1, end' = 2\<rparr>" Above None plainHost 1 Code "''x''" False]
  note t4 = readonly_or_absent_noop
     [of readOnlyEditor Markup uiContext None None noExpand Up uiCellContext
         "\<lparr>start = 1, end' = 2\<rparr>" Below None plainHost 1 Code "''x''" False]
  from ro ab t1 t2 t3 t4 show ?thesis by blast
qed

subsection \<open>Rejected joins\<close>

text \<open>
  C4, as the claim states it, fails in the "exactly": a read-only editor rejects a join in
  the middle of the Document with no constraint given, and so does an empty range; neither
  spans a boundary nor breaks a kind constraint.
\<close>

theorem join_rejects_readonly_and_empty:
  "joinNotebookCells readOnlyEditor \<lparr>start = 1, end' = 2\<rparr> Above None = Inr None
   \<and> \<not> claimedRejection readOnlyEditor \<lparr>start = 1, end' = 2\<rparr> Above None
   \<and> joinNotebookCells editor3 \<lparr>start = 1, end' = 1\<rparr> Above None = Inr None
   \<and> \<not> claimedRejection editor3 \<lparr>start = 1, end' = 1\<rparr> Above None"
  by (simp add: joinNotebookCells_def claimedRejection_def spansBoundary_def kindViolated_def
        adjacentCell_def kindMismatch_def editor_eval)

text \<open>
  C4, amended. \<^verbatim>\<open>joinNotebookCells\<close> returns \<^verbatim>\<open>null\<close> exactly when the editor is
  read-only, or the range holds no cell of the Document, or the range spans the Document
  boundary in the requested direction (above with \<open>start = 0\<close>, below with
  \<open>end = length\<close>), or a kind constraint is given and a cell of the range or the
  neighbour to be joined is of another kind. The function only computes edits: a
  rejection produces none and nothing is applied.
\<close>

theorem join_rejected_iff:
  "joinNotebookCells editor rng direction constraint = Inr None
     \<longleftrightarrow> joinRejected editor rng direction constraint"
  by (auto simp: joinNotebookCells_def joinRejected_def claimedRejection_def spansBoundary_def
        kindViolated_def adjacentCell_def Let_def
      split: JoinDirection.splits option.splits)

theorem join_rejected_iff_witness:
  "joinRejected editor3 \<lparr>start = 0, end' = 1\<rparr> Above None
   \<and> joinNotebookCells editor3 \<lparr>start = 0, end' = 1\<rparr> Above None = Inr None
   \<and> joinRejected editor3 \<lparr>start = 1, end' = 2\<rparr> Below (Some Code)
   \<and> joinNotebookCells editor3 \<lparr>start = 1, end' = 2\<rparr> Below (Some Code) = Inr None
   \<and> \<not> joinRejected editor3 \<lparr>start = 1, end' = 2\<rparr> Above (Some Code)
   \<and> joinNotebookCells editor3 \<lparr>start = 1, end' = 2\<rparr> Above (Some Code) \<noteq> Inr None"
proof -
  have a: "joinRejected editor3 \<lparr>start = 0, end' = 1\<rparr> Above None"
    by (simp add: joinRejected_def claimedRejection_def spansBoundary_def)
  have b: "joinRejected editor3 \<lparr>start = 1, end' = 2\<rparr> Below (Some Code)"
    by (simp add: joinRejected_def claimedRejection_def spansBoundary_def kindViolated_def
          adjacentCell_def kindMismatch_def editor_eval)
  have c: "\<not> joinRejected editor3 \<lparr>start = 1, end' = 2\<rparr> Above (Some Code)"
    by (simp add: joinRejected_def claimedRejection_def spansBoundary_def kindViolated_def
          adjacentCell_def kindMismatch_def editor_eval)
  from a b c
    join_rejected_iff [of editor3 "\<lparr>start = 0, end' = 1\<rparr>" Above None]
    join_rejected_iff [of editor3 "\<lparr>start = 1, end' = 2\<rparr>" Below "Some Code"]
    join_rejected_iff [of editor3 "\<lparr>start = 1, end' = 2\<rparr>" Above "Some Code"]
  show ?thesis by blast
qed

subsection \<open>The applier: cells, selection, undo\<close>

lemma stageEdits_cells:
  "textModel_cells (stageEdits es editor)
     = fst (foldl applyEdit (textModel_cells editor, nextHandle editor) es)"
  by (simp add: stageEdits_def split: prod.splits)

lemma applyEdits_cells:
  "textModel_cells (applyEdits es sync begin endc sixth editor)
     = fst (foldl applyEdit (textModel_cells editor, nextHandle editor) es)"
  by (simp add: applyEdits_def stageEdits_def Let_def split: prod.splits)

lemma getLength_applyEdits_staged:
  "getLength (applyEdits es sync begin endc sixth editor) = getLength (stageEdits es editor)"
  by (simp add: getLength_def applyEdits_cells stageEdits_cells)

lemma applyEdits_selection:
  "currentSelectionState (applyEdits es sync begin endc sixth editor)
     = validateSelectionState (getLength (stageEdits es editor)) (endc (stageEdits es editor))"
  by (simp add: applyEdits_def currentSelectionState_def getFocus_def getSelections_def Let_def)

lemma applyEdits_undoStack:
  "undoStack (applyEdits es sync begin endc sixth editor)
     = \<lparr>saved_cells = textModel_cells editor, saved_selection = begin\<rparr> # undoStack editor"
  by (simp add: applyEdits_def stageEdits_def Let_def split: prod.splits)

lemma validateRange_within: "0 \<le> n \<Longrightarrow> rangeWithin (validateRange n r) n"
  by (auto simp: rangeWithin_def validateRange_def clampIndex_def Let_def min_def max_def)

lemma validateRange_id: "rangeWithin r n \<Longrightarrow> validateRange n r = r"
  by (auto simp: rangeWithin_def validateRange_def clampIndex_def Let_def min_def max_def)

lemma validate_singleCellState:
  "0 \<le> i \<Longrightarrow> i < n \<Longrightarrow> validateSelectionState n (singleCellState i) = singleCellState i"
  by (simp add: validateSelectionState_def singleCellState_def validateRange_id rangeWithin_def)

lemma insertCellAtIndex_cells:
  "textModel_cells (fst (insertCellAtIndex editor index source language type metadata outputs
                           sync pushUndoStop))
     = take (nat index) (textModel_cells editor)
         @ [newCell (nextHandle editor)
              \<lparr>dto_cellKind = type, dto_source = source, dto_language = language,
               dto_mime = None, dto_outputs = outputs, dto_metadata = metadata\<rparr>]
         @ drop (nat index) (textModel_cells editor)"
  by (simp add: insertCellAtIndex_def applyEdits_cells Let_def newCells_def)

lemma insertCellAtIndex_length:
  assumes "0 \<le> index" "index \<le> getLength editor"
  shows "getLength (fst (insertCellAtIndex editor index source language type metadata outputs
                           sync pushUndoStop))
           = getLength editor + 1"
proof -
  have "nat index \<le> length (textModel_cells editor)"
    using assms by (simp add: getLength_def)
  then show ?thesis
    unfolding getLength_def insertCellAtIndex_cells by simp
qed

text \<open>
  C7. A batch the applier applies registers exactly one undo-stack entry, on top of the
  entries there were, and an undo after the batch restores the Document content and the
  Selection State captured before the batch, and the undo stack. \<^verbatim>\<open>insertCellAtIndex\<close>
  captures the editor's focus and selections at the call: at an index of the Document it
  puts its new cell there, so that the Document has one cell more, registers one entry, and
  an undo after it brings back the cells, the focus and the selections the editor had.
\<close>

theorem undo_restores_snapshot:
  "undoStack (applyEdits es sync begin endc sixth editor)
     = \<lparr>saved_cells = textModel_cells editor, saved_selection = begin\<rparr> # undoStack editor
   \<and> length (undoStack (applyEdits es sync begin endc sixth editor))
       = length (undoStack editor) + 1
   \<and> textModel_cells (undo (applyEdits es sync begin endc sixth editor)) = textModel_cells editor
   \<and> currentSelectionState (undo (applyEdits es sync begin endc sixth editor)) = begin
   \<and> undoStack (undo (applyEdits es sync begin endc sixth editor)) = undoStack editor
   \<and> (0 \<le> index \<and> index \<le> getLength editor \<longrightarrow>
        textModel_cells (fst (insertCellAtIndex editor index source language type metadata
                                outputs sync pushUndoStop))
          = take (nat index) (textModel_cells editor)
              @ [newCell (nextHandle editor)
                   \<lparr>dto_cellKind = type, dto_source = source, dto_language = language,
                    dto_mime = None, dto_outputs = outputs, dto_metadata = metadata\<rparr>]
              @ drop (nat index) (textModel_cells editor)
        \<and> getLength (fst (insertCellAtIndex editor index source language type metadata
                             outputs sync pushUndoStop))
            = getLength editor + 1
        \<and> length (undoStack (fst (insertCellAtIndex editor index source language type metadata
                                    outputs sync pushUndoStop)))
            = length (undoStack editor) + 1
        \<and> textModel_cells (undo (fst (insertCellAtIndex editor index source language type
                                        metadata outputs sync pushUndoStop)))
            = textModel_cells editor
        \<and> currentSelectionState (undo (fst (insertCellAtIndex editor index source language
                                               type metadata outputs sync pushUndoStop)))
            = currentSelectionState editor
        \<and> undoStack (undo (fst (insertCellAtIndex editor index source language type metadata
                                   outputs sync pushUndoStop)))
            = undoStack editor)"
proof -
  let ?applied = "applyEdits es sync begin endc sixth editor"
  let ?inserted = "fst (insertCellAtIndex editor index source language type metadata outputs
                          sync pushUndoStop)"
  have stack: "undoStack ?applied
      = \<lparr>saved_cells = textModel_cells editor, saved_selection = begin\<rparr> # undoStack editor"
    by (rule applyEdits_undoStack)
  have restored: "textModel_cells (undo ?applied) = textModel_cells editor
      \<and> currentSelectionState (undo ?applied) = begin
      \<and> undoStack (undo ?applied) = undoStack editor"
    by (simp add: undo_def stack currentSelectionState_def getFocus_def getSelections_def)
  have istack: "undoStack ?inserted
      = \<lparr>saved_cells = textModel_cells editor, saved_selection = currentSelectionState editor\<rparr>
          # undoStack editor"
    by (simp add: insertCellAtIndex_def Let_def applyEdits_undoStack)
  have irestored: "textModel_cells (undo ?inserted) = textModel_cells editor
      \<and> currentSelectionState (undo ?inserted) = currentSelectionState editor
      \<and> undoStack (undo ?inserted) = undoStack editor"
    by (simp add: undo_def istack currentSelectionState_def getFocus_def getSelections_def)
  have icells: "textModel_cells ?inserted
      = take (nat index) (textModel_cells editor)
          @ [newCell (nextHandle editor)
               \<lparr>dto_cellKind = type, dto_source = source, dto_language = language,
                dto_mime = None, dto_outputs = outputs, dto_metadata = metadata\<rparr>]
          @ drop (nat index) (textModel_cells editor)"
    by (rule insertCellAtIndex_cells)
  have ilength: "getLength ?inserted = getLength editor + 1"
    if "0 \<le> index" "index \<le> getLength editor"
    using that by (rule insertCellAtIndex_length)
  show ?thesis
    using stack restored istack irestored icells ilength by simp
qed

theorem undo_restores_snapshot_witness:
  "(0::int) \<le> 1 \<and> 1 \<le> getLength editor3
   \<and> getLength (fst (insertCellAtIndex editor3 1 ''x'' ''python'' Code None [] True False)) = 4
   \<and> length (undoStack (fst (insertCellAtIndex editor3 1 ''x'' ''python'' Code None [] True
                               False))) = 1
   \<and> textModel_cells (undo (fst (insertCellAtIndex editor3 1 ''x'' ''python'' Code None []
                                   True False)))
       = threeCells
   \<and> currentSelectionState (undo (fst (insertCellAtIndex editor3 1 ''x'' ''python'' Code None
                                         [] True False)))
       = \<lparr>state_focus = \<lparr>start = 1, end' = 2\<rparr>, state_selections = [\<lparr>start = 1, end' = 2\<rparr>]\<rparr>"
proof -
  have len: "getLength editor3 = 3"
    by (simp add: getLength_def editor3_def editorOf_def threeCells_def)
  have cells: "textModel_cells editor3 = threeCells"
    by (simp add: editor3_def editorOf_def)
  have stack: "undoStack editor3 = []"
    by (simp add: editor3_def editorOf_def)
  have sel: "currentSelectionState editor3
      = \<lparr>state_focus = \<lparr>start = 1, end' = 2\<rparr>, state_selections = [\<lparr>start = 1, end' = 2\<rparr>]\<rparr>"
    by (simp add: currentSelectionState_def getFocus_def getSelections_def editor3_def
          editorOf_def)
  have h: "(0::int) \<le> 1 \<and> 1 \<le> getLength editor3"
    by (simp add: len)
  note t = undo_restores_snapshot
             [of "[]" True "currentSelectionState editor3" currentSelectionState None editor3
                 1 "''x''" "''python''" Code None "[]" False]
  from t h have
    "getLength (fst (insertCellAtIndex editor3 1 ''x'' ''python'' Code None [] True False))
       = getLength editor3 + 1
     \<and> length (undoStack (fst (insertCellAtIndex editor3 1 ''x'' ''python'' Code None [] True
                                 False)))
         = length (undoStack editor3) + 1
     \<and> textModel_cells (undo (fst (insertCellAtIndex editor3 1 ''x'' ''python'' Code None []
                                     True False)))
         = textModel_cells editor3
     \<and> currentSelectionState (undo (fst (insertCellAtIndex editor3 1 ''x'' ''python'' Code
                                           None [] True False)))
         = currentSelectionState editor3"
    by blast
  with h show ?thesis
    by (simp add: len cells stack sel)
qed

subsection \<open>Moving cells\<close>

lemma move_nat:
  assumes "i + l \<le> length cs" "ni + l \<le> length cs"
  defines "moved \<equiv> take l (drop i cs)"
  defines "others \<equiv> take i cs @ drop (i + l) cs"
  defines "cs' \<equiv> take ni others @ moved @ drop ni others"
  shows "length cs' = length cs"
    and "\<forall>j < l. cs' ! (ni + j) = cs ! (i + j)"
    and "take ni cs' @ drop (ni + l) cs' = others"
proof -
  have lo: "length others = length cs - l" using assms(1) by (simp add: others_def)
  have lm: "length moved = l" using assms(1) by (simp add: moved_def)
  have lt: "length (take ni others) = ni" using lo assms(2) by simp
  show "length cs' = length cs" using lo lm assms by (simp add: cs'_def)
  show "\<forall>j < l. cs' ! (ni + j) = cs ! (i + j)"
  proof (intro allI impI)
    fix j assume "j < l"
    then have "cs' ! (ni + j) = moved ! j"
      using lt lm by (simp add: cs'_def nth_append)
    also have "\<dots> = cs ! (i + j)" using \<open>j < l\<close> assms(1) by (simp add: moved_def)
    finally show "cs' ! (ni + j) = cs ! (i + j)" .
  qed
  show "take ni cs' @ drop (ni + l) cs' = others"
    using lt lm by (simp add: cs'_def)
qed

lemma take1_drop: "k < length cs \<Longrightarrow> take (Suc 0) (drop k cs) = [cs ! k]"
  by (simp add: take_Suc_conv_app_nth)

lemma move_up_nat:
  assumes "s0 < e0" "Suc e0 \<le> length cs"
  shows "(let moved = take (Suc 0) (drop s0 cs);
              others = take s0 cs @ drop (s0 + Suc 0) cs
          in take e0 others @ moved @ drop e0 others)
         = take s0 cs @ take (e0 - s0) (drop (Suc s0) cs) @ [cs ! s0] @ drop (Suc e0) cs"
proof -
  have "s0 < length cs" using assms by simp
  then have m: "take (Suc 0) (drop s0 cs) = [cs ! s0]" by (rule take1_drop)
  have l: "length (take s0 cs) = s0" using assms by simp
  have t: "take e0 (take s0 cs @ drop (Suc s0) cs) = take s0 cs @ take (e0 - s0) (drop (Suc s0) cs)"
    using assms l by (simp add: min_def)
  have d: "drop e0 (take s0 cs @ drop (Suc s0) cs) = drop (Suc e0) cs"
    using assms l by simp
  show ?thesis using m t d by (simp add: Let_def)
qed

lemma move_down_nat:
  assumes "s \<le> e" "e < length cs"
  shows "(let moved = take (Suc 0) (drop e cs);
              others = take e cs @ drop (e + Suc 0) cs
          in take s others @ moved @ drop s others)
         = take s cs @ [cs ! e] @ take (e - s) (drop s cs) @ drop (Suc e) cs"
proof -
  have m: "take (Suc 0) (drop e cs) = [cs ! e]" using assms(2) by (rule take1_drop)
  have l: "length (take e cs) = e" using assms by simp
  have t: "take s (take e cs @ drop (Suc e) cs) = take s cs"
    using assms l by (simp add: min_def)
  have d: "drop s (take e cs @ drop (Suc e) cs) = take (e - s) (drop s cs) @ drop (Suc e) cs"
    using assms l by (simp add: drop_take)
  show ?thesis using m t d by (simp add: Let_def)
qed

lemma revealFocusRange_cells [simp]:
  "textModel_cells (revealFocusRange editor) = textModel_cells editor"
  "getSelections (revealFocusRange editor) = getSelections editor"
  "getFocus (revealFocusRange editor) = getFocus editor"
  by (simp_all add: revealFocusRange_def revealCellRangeInView_def getSelections_def getFocus_def)

lemma applyEdits_getSelections:
  "getSelections (applyEdits es sync begin endc sixth editor)
     = map (validateRange (getLength (stageEdits es editor)))
         (state_selections (endc (stageEdits es editor)))"
  by (simp add: applyEdits_def getSelections_def validateSelectionState_def Let_def)

lemma applyEdits_getFocus:
  "getFocus (applyEdits es sync begin endc sixth editor)
     = validateRange (getLength (stageEdits es editor))
         (state_focus (endc (stageEdits es editor)))"
  by (simp add: applyEdits_def getFocus_def validateSelectionState_def Let_def)

lemma length_take_drop_insert:
  "length (take k xs @ ys @ drop k xs) = length xs + length ys"
  by (induction xs arbitrary: k) (auto simp: take_Cons drop_Cons split: nat.splits)

lemma length_move_parts:
  "length (take i cs @ drop (i + l) cs) + length (take l (drop i cs)) = length cs"
  by simp

lemma length_move:
  "length (fst (applyEdit (cs, h) (CellMoveEdit index len newIdx))) = length cs"
  using length_move_parts [of "nat index" cs "nat len"]
  by (simp only: applyEdit.simps Let_def fst_conv length_take_drop_insert)

lemma getLength_stage_move:
  "getLength (stageEdits [CellMoveEdit index len newIdx] editor) = getLength editor"
  unfolding getLength_def stageEdits_cells using length_move by simp

lemma moveCellRange_up:
  assumes "hasModel editor" "\<not> isReadOnly editor"
    and "expand editor (getSelections editor) = rng # rest"
    and "0 < start rng" "start rng < end' rng" "end' rng \<le> getLength editor"
  shows "textModel_cells (moveCellRange expand Up editor)
           = take (nat (start rng - 1)) (textModel_cells editor)
             @ rangeCells editor rng
             @ [textModel_cells editor ! nat (start rng - 1)]
             @ drop (nat (end' rng)) (textModel_cells editor)"
    and "getSelections (moveCellRange expand Up editor)
           = [\<lparr>start = start rng - 1, end' = end' rng - 1\<rparr>]"
proof -
  obtain s0 where s0: "start rng = int (Suc s0)"
    using assms(4) by (metis Suc_pred' nat_0_iff nat_int not_gr_zero order_less_irrefl zero_less_imp_eq_int)
  obtain e0 where e0: "end' rng = int (Suc e0)"
    using assms(4,5) by (metis Suc_pred' less_trans nat_0_iff nat_int not_gr_zero order_less_irrefl zero_less_imp_eq_int)
  have lt: "s0 < e0" using assms(5) s0 e0 by simp
  have le: "Suc e0 \<le> length (textModel_cells editor)"
    using assms(6) e0 by (simp add: getLength_def)
  have n1: "nat (start rng - 1) = s0" "nat (end' rng - 1) = e0" "nat (end' rng) = Suc e0"
       "nat (start rng) = Suc s0" "nat (end' rng - start rng) = e0 - s0"
    using s0 e0 lt by simp_all
  show "textModel_cells (moveCellRange expand Up editor)
           = take (nat (start rng - 1)) (textModel_cells editor)
             @ rangeCells editor rng
             @ [textModel_cells editor ! nat (start rng - 1)]
             @ drop (nat (end' rng)) (textModel_cells editor)"
    using assms move_up_nat[OF lt le]
    by (simp add: moveCellRange_def applyEdits_cells rangeCells_def n1 Let_def)
  have "rangeWithin \<lparr>start = start rng - 1, end' = end' rng - 1\<rparr> (getLength editor)"
    using assms(4,5,6) by (simp add: rangeWithin_def)
  then have v: "validateRange (getLength editor) \<lparr>start = start rng - 1, end' = end' rng - 1\<rparr>
                  = \<lparr>start = start rng - 1, end' = end' rng - 1\<rparr>"
    by (rule validateRange_id)
  show "getSelections (moveCellRange expand Up editor)
           = [\<lparr>start = start rng - 1, end' = end' rng - 1\<rparr>]"
    using assms v
    by (simp add: moveCellRange_def applyEdits_getSelections getLength_stage_move Let_def)
qed

lemma moveCellRange_down:
  assumes "hasModel editor" "\<not> isReadOnly editor"
    and "expand editor (getSelections editor) = rng # rest"
    and "0 \<le> start rng" "start rng < end' rng" "end' rng < getLength editor"
  shows "textModel_cells (moveCellRange expand Down editor)
           = take (nat (start rng)) (textModel_cells editor)
             @ [textModel_cells editor ! nat (end' rng)]
             @ rangeCells editor rng
             @ drop (nat (end' rng + 1)) (textModel_cells editor)"
    and "getSelections (moveCellRange expand Down editor)
           = [\<lparr>start = start rng + 1, end' = end' rng + 1\<rparr>]"
proof -
  obtain s where s: "start rng = int s"
    using assms(4) by (metis zero_le_imp_eq_int)
  obtain e where e: "end' rng = int e"
    using assms(4,5) by (metis less_le_not_le order_trans zero_le_imp_eq_int)
  have lt: "s \<le> e" using assms(5) s e by simp
  have le: "e < length (textModel_cells editor)"
    using assms(6) e by (simp add: getLength_def)
  have n1: "nat (start rng) = s" "nat (end' rng) = e" "nat (end' rng + 1) = Suc e"
       "nat (end' rng - start rng) = e - s"
    using s e lt by simp_all
  show "textModel_cells (moveCellRange expand Down editor)
           = take (nat (start rng)) (textModel_cells editor)
             @ [textModel_cells editor ! nat (end' rng)]
             @ rangeCells editor rng
             @ drop (nat (end' rng + 1)) (textModel_cells editor)"
    using assms move_down_nat[OF lt le]
    by (simp add: moveCellRange_def applyEdits_cells rangeCells_def n1 Let_def)
  have "rangeWithin \<lparr>start = start rng + 1, end' = end' rng + 1\<rparr> (getLength editor)"
    using assms(4,5,6) by (simp add: rangeWithin_def)
  then have v: "validateRange (getLength editor) \<lparr>start = start rng + 1, end' = end' rng + 1\<rparr>
                  = \<lparr>start = start rng + 1, end' = end' rng + 1\<rparr>"
    by (rule validateRange_id)
  show "getSelections (moveCellRange expand Down editor)
           = [\<lparr>start = start rng + 1, end' = end' rng + 1\<rparr>]"
    using assms v
    by (simp add: moveCellRange_def applyEdits_getSelections getLength_stage_move Let_def)
qed

lemma moveCellToIdx_relocates:
  fixes sync pushed :: bool
  assumes "0 \<le> index" "index < getLength editor" "0 \<le> len"
    and "index + len \<le> getLength editor" "0 \<le> newIdx" "newIdx + len \<le> getLength editor"
  defines "cs \<equiv> textModel_cells editor"
  defines "cs' \<equiv> textModel_cells (fst (moveCellToIdx editor index len newIdx sync pushed))"
  shows "snd (moveCellToIdx editor index len newIdx sync pushed)"
    and "length cs' = length cs"
    and "\<forall>j. 0 \<le> j \<and> j < len \<longrightarrow> cs' ! nat (newIdx + j) = cs ! nat (index + j)"
    and "take (nat newIdx) cs' @ drop (nat (newIdx + len)) cs'
           = take (nat index) cs @ drop (nat (index + len)) cs"
    and "currentSelectionState (fst (moveCellToIdx editor index len newIdx sync pushed))
           = validateSelectionState (getLength editor) (singleCellState newIdx)"
    and "newIdx < getLength editor \<Longrightarrow>
           currentSelectionState (fst (moveCellToIdx editor index len newIdx sync pushed))
             = singleCellState newIdx"
proof -
  have at: "cellAt editor index \<noteq> None" using assms(1,2) by (simp add: cellAt_def)
  have a1: "nat index + nat len \<le> length cs"
    using assms(1,3,4) by (simp add: getLength_def cs_def)
  have a2: "nat newIdx + nat len \<le> length cs"
    using assms(3,5,6) by (simp add: getLength_def cs_def)
  have cs': "cs' = take (nat newIdx) (take (nat index) cs @ drop (nat index + nat len) cs)
                    @ take (nat len) (drop (nat index) cs)
                    @ drop (nat newIdx) (take (nat index) cs @ drop (nat index + nat len) cs)"
    using at by (auto simp: cs'_def cs_def moveCellToIdx_def applyEdits_cells Let_def)
  note m = move_nat[OF a1 a2]
  show "snd (moveCellToIdx editor index len newIdx sync pushed)"
    using at by (auto simp: moveCellToIdx_def)
  show "length cs' = length cs" using m(1) by (simp add: cs')
  show "\<forall>j. 0 \<le> j \<and> j < len \<longrightarrow> cs' ! nat (newIdx + j) = cs ! nat (index + j)"
  proof (intro allI impI)
    fix j :: int assume j: "0 \<le> j \<and> j < len"
    then have "nat j < nat len" by simp
    with m(2) have "cs' ! (nat newIdx + nat j) = cs ! (nat index + nat j)"
      by (simp add: cs')
    moreover have "nat (newIdx + j) = nat newIdx + nat j" "nat (index + j) = nat index + nat j"
      using j assms(1,5) by linarith+
    ultimately show "cs' ! nat (newIdx + j) = cs ! nat (index + j)"
      by simp
  qed
  have nl: "nat (newIdx + len) = nat newIdx + nat len" "nat (index + len) = nat index + nat len"
    using assms(1,3,5) by linarith+
  show "take (nat newIdx) cs' @ drop (nat (newIdx + len)) cs'
           = take (nat index) cs @ drop (nat (index + len)) cs"
    using m(3) unfolding nl cs' by simp
  show stored: "currentSelectionState (fst (moveCellToIdx editor index len newIdx sync pushed))
           = validateSelectionState (getLength editor) (singleCellState newIdx)"
    using at by (auto simp: moveCellToIdx_def applyEdits_selection getLength_stage_move)
  show "currentSelectionState (fst (moveCellToIdx editor index len newIdx sync pushed))
           = singleCellState newIdx" if "newIdx < getLength editor"
    unfolding stored using assms(5) that by (rule validate_singleCellState)
qed

text \<open>
  C5. A Move edit takes its target index \<open>newIdx\<close> in the index space of the Document
  without the moved cells and uses it as it is given: after \<^verbatim>\<open>moveCellToIdx\<close> the
  \<open>len\<close> cells that were at \<open>index\<close> stand at \<open>newIdx\<close> in their order, the Document
  without them is the same list before and after (the other cells keep their relative
  order), and the count is unchanged; the Selection State becomes the one cell at
  \<open>newIdx\<close>, as \<^verbatim>\<open>moveCellToIdx\<close> computes it whenever \<open>newIdx\<close> is a cell of the
  Document (and cut to the Document when no cells are moved to its very end). The
  callers adjust the index themselves: \<^verbatim>\<open>moveCellRange\<close> moves a range up by sending
  the cell above it to \<open>end - 1\<close>, and down by sending the cell below it to \<open>start\<close>.
\<close>

theorem move_relocates_range:
  "(0 \<le> index \<and> index < getLength editor \<and> 0 \<le> len \<and> index + len \<le> getLength editor
      \<and> 0 \<le> newIdx \<and> newIdx + len \<le> getLength editor \<longrightarrow>
      snd (moveCellToIdx editor index len newIdx sync pushed)
      \<and> length (textModel_cells (fst (moveCellToIdx editor index len newIdx sync pushed)))
          = length (textModel_cells editor)
      \<and> (\<forall>j. 0 \<le> j \<and> j < len \<longrightarrow>
            textModel_cells (fst (moveCellToIdx editor index len newIdx sync pushed))
              ! nat (newIdx + j)
            = textModel_cells editor ! nat (index + j))
      \<and> take (nat newIdx)
            (textModel_cells (fst (moveCellToIdx editor index len newIdx sync pushed)))
          @ drop (nat (newIdx + len))
              (textModel_cells (fst (moveCellToIdx editor index len newIdx sync pushed)))
          = take (nat index) (textModel_cells editor)
            @ drop (nat (index + len)) (textModel_cells editor)
      \<and> currentSelectionState (fst (moveCellToIdx editor index len newIdx sync pushed))
          = validateSelectionState (getLength editor) (singleCellState newIdx)
      \<and> (newIdx < getLength editor \<longrightarrow>
            currentSelectionState (fst (moveCellToIdx editor index len newIdx sync pushed))
              = singleCellState newIdx))
   \<and> (hasModel editor \<and> \<not> isReadOnly editor
      \<and> expand editor (getSelections editor) = rng # rest
      \<and> 0 < start rng \<and> start rng < end' rng \<and> end' rng \<le> getLength editor \<longrightarrow>
      textModel_cells (moveCellRange expand Up editor)
        = take (nat (start rng - 1)) (textModel_cells editor)
          @ rangeCells editor rng
          @ [textModel_cells editor ! nat (start rng - 1)]
          @ drop (nat (end' rng)) (textModel_cells editor)
      \<and> getSelections (moveCellRange expand Up editor)
          = [\<lparr>start = start rng - 1, end' = end' rng - 1\<rparr>])
   \<and> (hasModel editor \<and> \<not> isReadOnly editor
      \<and> expand editor (getSelections editor) = rng # rest
      \<and> 0 \<le> start rng \<and> start rng < end' rng \<and> end' rng < getLength editor \<longrightarrow>
      textModel_cells (moveCellRange expand Down editor)
        = take (nat (start rng)) (textModel_cells editor)
          @ [textModel_cells editor ! nat (end' rng)]
          @ rangeCells editor rng
          @ drop (nat (end' rng + 1)) (textModel_cells editor)
      \<and> getSelections (moveCellRange expand Down editor)
          = [\<lparr>start = start rng + 1, end' = end' rng + 1\<rparr>])"
proof (intro conjI impI, goal_cases)
  case 1 then show ?case using moveCellToIdx_relocates(1) by blast
next
  case 2 then show ?case using moveCellToIdx_relocates(2) by blast
next
  case 3 then show ?case
    using moveCellToIdx_relocates(3) [of index editor len newIdx sync pushed] by blast
next
  case 4 then show ?case using moveCellToIdx_relocates(4) by blast
next
  case 5 then show ?case using moveCellToIdx_relocates(5) by blast
next
  case 6 then show ?case using moveCellToIdx_relocates(6) by blast
next
  case 7 then show ?case using moveCellRange_up(1) by blast
next
  case 8 then show ?case using moveCellRange_up(2) by blast
next
  case 9 then show ?case using moveCellRange_down(1) by blast
next
  case 10 then show ?case using moveCellRange_down(2) by blast
qed

theorem move_relocates_range_witness:
  "(0 \<le> (0::int) \<and> 0 < getLength editor3 \<and> 0 \<le> (1::int) \<and> 0 + 1 \<le> getLength editor3
      \<and> 0 \<le> (2::int) \<and> 2 + 1 \<le> getLength editor3)
   \<and> 2 < getLength editor3
   \<and> (hasModel editor3 \<and> \<not> isReadOnly editor3
      \<and> noExpand editor3 (getSelections editor3) = \<lparr>start = 1, end' = 2\<rparr> # []
      \<and> 0 < start \<lparr>start = 1, end' = 2\<rparr>
      \<and> start \<lparr>start = 1, end' = 2\<rparr> < end' \<lparr>start = 1, end' = 2\<rparr>
      \<and> end' \<lparr>start = 1, end' = 2\<rparr> < getLength editor3)
   \<and> snd (moveCellToIdx editor3 0 1 2 True True)
   \<and> currentSelectionState (fst (moveCellToIdx editor3 0 1 2 True True)) = singleCellState 2
   \<and> getSelections (moveCellRange noExpand Up editor3) = [\<lparr>start = 0, end' = 1\<rparr>]
   \<and> getSelections (moveCellRange noExpand Down editor3) = [\<lparr>start = 2, end' = 3\<rparr>]"
proof -
  let ?rng = "\<lparr>start = 1, end' = 2\<rparr>"
  have h1: "0 \<le> (0::int) \<and> 0 < getLength editor3 \<and> 0 \<le> (1::int) \<and> 0 + 1 \<le> getLength editor3
      \<and> 0 \<le> (2::int) \<and> 2 + 1 \<le> getLength editor3"
    by (simp add: editor_eval)
  have h1': "2 < getLength editor3"
    by (simp add: editor_eval)
  have h2: "hasModel editor3 \<and> \<not> isReadOnly editor3
      \<and> noExpand editor3 (getSelections editor3) = ?rng # []
      \<and> 0 < start ?rng \<and> start ?rng < end' ?rng \<and> end' ?rng < getLength editor3"
    by (simp add: editor_eval noExpand_def)
  have h2u: "hasModel editor3 \<and> \<not> isReadOnly editor3
      \<and> noExpand editor3 (getSelections editor3) = ?rng # []
      \<and> 0 < start ?rng \<and> start ?rng < end' ?rng \<and> end' ?rng \<le> getLength editor3"
    by (simp add: editor_eval noExpand_def)
  have h2d: "hasModel editor3 \<and> \<not> isReadOnly editor3
      \<and> noExpand editor3 (getSelections editor3) = ?rng # []
      \<and> 0 \<le> start ?rng \<and> start ?rng < end' ?rng \<and> end' ?rng < getLength editor3"
    by (simp add: editor_eval noExpand_def)
  note t = move_relocates_range [of 0 editor3 1 2 True True noExpand ?rng "[]"]
  from t h1 h1' have c1: "snd (moveCellToIdx editor3 0 1 2 True True)
     \<and> currentSelectionState (fst (moveCellToIdx editor3 0 1 2 True True)) = singleCellState 2"
    by blast
  from t h2u have c2: "getSelections (moveCellRange noExpand Up editor3)
                        = [\<lparr>start = start ?rng - 1, end' = end' ?rng - 1\<rparr>]"
    by blast
  from t h2d have c3: "getSelections (moveCellRange noExpand Down editor3)
                        = [\<lparr>start = start ?rng + 1, end' = end' ?rng + 1\<rparr>]"
    by blast
  from c2 have c2': "getSelections (moveCellRange noExpand Up editor3) = [\<lparr>start = 0, end' = 1\<rparr>]"
    by simp
  from c3 have c3': "getSelections (moveCellRange noExpand Down editor3) = [\<lparr>start = 2, end' = 3\<rparr>]"
    by simp
  from h1 h1' h2 c1 c2' c3' show ?thesis by blast
qed

subsection \<open>Cell count and Selection State after a batch\<close>

lemma length_newCells [simp]: "length (newCells h dtos) = length dtos"
  by (simp add: newCells_def)

lemma applyEdit_count:
  "validEdit (int (length cs)) e \<Longrightarrow>
     int (length (fst (applyEdit (cs, h) e))) = int (length cs) - removedCells e + insertedCells e"
  by (cases e) (auto simp: Let_def)

lemma foldl_applyEdit_count:
  "validBatch (int (length cs)) es \<Longrightarrow>
     int (length (fst (foldl applyEdit (cs, h) es))) = expectedCount (int (length cs)) es"
proof (induction es arbitrary: cs h)
  case Nil
  then show ?case by (simp add: expectedCount_def)
next
  case (Cons e es)
  obtain cs1 h1 where step: "applyEdit (cs, h) e = (cs1, h1)" by (cases "applyEdit (cs, h) e")
  from Cons.prems have ve: "validEdit (int (length cs)) e"
    and vb: "validBatch (int (length cs) - removedCells e + insertedCells e) es" by simp_all
  from applyEdit_count[OF ve, of h] step
  have len1: "int (length cs1) = int (length cs) - removedCells e + insertedCells e" by simp
  from vb len1 have "validBatch (int (length cs1)) es" by simp
  from Cons.IH[OF this, of h1]
  have "int (length (fst (foldl applyEdit (cs1, h1) es))) = expectedCount (int (length cs1)) es" .
  then show ?case using step len1 by (simp add: expectedCount_def)
qed

lemma findIndex_range: "- 1 \<le> findIndex P xs \<and> findIndex P xs < int (length xs)"
  by (induction xs) auto

lemma findIndex_found: "0 \<le> findIndex P xs \<Longrightarrow> P (xs ! nat (findIndex P xs))"
proof (induction xs)
  case Nil
  then show ?case by simp
next
  case (Cons x xs)
  show ?case
  proof (cases "P x")
    case True
    then show ?thesis by simp
  next
    case False
    with Cons.prems have nn: "0 \<le> findIndex P xs" by (auto split: if_splits)
    then have "nat (findIndex P xs + 1) = Suc (nat (findIndex P xs))" by simp
    with False nn Cons.IH show ?thesis by simp
  qed
qed

lemma getLength_nonneg: "0 \<le> getLength editor"
  by (simp add: getLength_def)

lemma selectionWithin_applyEdits:
  "selectionWithin (applyEdits es sync begin endc sixth editor)"
proof -
  let ?n = "getLength (stageEdits es editor)"
  have n: "0 \<le> ?n" by (rule getLength_nonneg)
  have "rangeWithin (validateRange ?n r) ?n" for r
    using n by (rule validateRange_within)
  then show ?thesis
    by (simp add: selectionWithin_def getLength_applyEdits_staged applyEdits_getFocus
          applyEdits_getSelections list_all_iff)
qed

lemma validate_id:
  assumes "stateWithin state n"
  shows "validateSelectionState n state = state"
proof -
  have f: "validateRange n (state_focus state) = state_focus state"
    using assms by (simp add: stateWithin_def validateRange_id)
  have "\<forall>r \<in> set (state_selections state). validateRange n r = r"
    using assms by (simp add: stateWithin_def list_all_iff validateRange_id)
  then have "map (validateRange n) (state_selections state) = state_selections state"
    by (simp add: map_idI)
  with f show ?thesis
    by (simp add: validateSelectionState_def)
qed

lemma applyEdits_keeps_valid:
  assumes "stateWithin (endc (stageEdits es editor)) (getLength (stageEdits es editor))"
  shows "currentSelectionState (applyEdits es sync begin endc sixth editor)
           = endc (stageEdits es editor)"
  unfolding applyEdits_selection using assms by (rule validate_id)

lemma insertCellAtIndex_state:
  assumes "0 \<le> index" "index \<le> getLength editor"
  shows "currentSelectionState
           (fst (insertCellAtIndex editor index source language type metadata outputs sync
                   pushUndoStop))
         = singleCellState index"
proof -
  let ?edits = "[CellReplaceEdit index 0
               [\<lparr>dto_cellKind = type, dto_source = source, dto_language = language,
                 dto_mime = None, dto_outputs = outputs, dto_metadata = metadata\<rparr>]]"
  have len: "getLength (stageEdits ?edits editor) = getLength editor + 1"
    using assms by (simp add: getLength_def stageEdits_cells)
  have "validateSelectionState (getLength editor + 1) (singleCellState index)
          = singleCellState index"
    using assms by (intro validate_singleCellState) simp_all
  then show ?thesis
    by (simp add: insertCellAtIndex_def Let_def applyEdits_selection len)
qed

lemma stage_delete_one:
  assumes "0 \<le> t" "t < getLength editor"
  shows "getLength (stageEdits [CellReplaceEdit t 1 []] editor) = getLength editor - 1"
  using assms by (simp add: getLength_def stageEdits_cells newCells_def)

lemma focus_after_delete_target:
  assumes "rangeWithin f n" "end' f \<le> start f + 1" "start f < n" "1 < n"
  shows "rangeWithin (if end' f = n then shiftRange (- 1) f else f) (n - 1)"
  using assms by (auto simp: rangeWithin_def shiftRange_def)

lemma focus_after_delete_other:
  assumes "rangeWithin f n" "end' f \<le> start f + 1" "start f \<noteq> t" "0 \<le> t" "t < n"
  shows "rangeWithin (if t < start f then shiftRange (- 1) f else f) (n - 1)"
  using assms by (auto simp: rangeWithin_def shiftRange_def)

lemma selection_after_delete:
  assumes "rangeWithin s n" "\<not> (start s \<le> t \<and> t < end' s)" "0 \<le> t" "t < n"
  shows "rangeWithin (if end' s \<le> t then s else shiftRange (- 1) s) (n - 1)"
  using assms by (auto simp: rangeWithin_def shiftRange_def)

lemma runDeleteAction_applies:
  "\<exists>edits begin endc. runDeleteAction editor cell = applyEdits edits True begin endc None editor"
proof (cases "find (\<lambda>selection. start selection \<le> getCellIndex editor cell
                        \<and> getCellIndex editor cell < end' selection) (getSelections editor)")
  case None
  show ?thesis
  proof (cases "isCell (cellAt editor (start (getFocus editor))) cell")
    case True
    with None show ?thesis
      unfolding runDeleteAction_def Let_def by (simp only: option.case if_True) blast
  next
    case False
    with None show ?thesis
      unfolding runDeleteAction_def Let_def by (simp only: option.case if_False) blast
  qed
next
  case (Some containingSelection)
  then show ?thesis
    unfolding runDeleteAction_def Let_def by (simp only: option.case) blast
qed

lemma runDeleteAction_outside:
  assumes pre: "selectionWithin editor"
    and idx: "0 \<le> getCellIndex editor cell"
    and none: "find (\<lambda>selection. start selection \<le> getCellIndex editor cell
                        \<and> getCellIndex editor cell < end' selection) (getSelections editor)
               = None"
    and single: "end' (getFocus editor) \<le> start (getFocus editor) + 1"
    and more: "1 < getLength editor"
  shows "textModel_cells (runDeleteAction editor cell)
           = take (nat (getCellIndex editor cell)) (textModel_cells editor)
             @ drop (Suc (nat (getCellIndex editor cell))) (textModel_cells editor)"
    and "getLength (runDeleteAction editor cell) = getLength editor - 1"
    and "currentSelectionState (runDeleteAction editor cell) = stateAfterDelete editor cell"
proof -
  define t where "t = getCellIndex editor cell"
  define n where "n = getLength editor"
  define f where "f = getFocus editor"
  define sels where "sels = getSelections editor"
  define g where "g = (\<lambda>selection.
                         if end' selection \<le> t then selection
                         else if t < start selection then shiftRange (- 1) selection
                         else \<lparr>start = t, end' = t + 1\<rparr>)"
  define g' where "g' = (\<lambda>selection.
                         if end' selection \<le> t then selection else shiftRange (- 1) selection)"
  define newFocus where "newFocus =
     (if isCell (cellAt editor (start f)) cell
      then (if end' f = n then shiftRange (- 1) f else f)
      else (if t < start f then shiftRange (- 1) f else f))"
  have t0: "0 \<le> t" using idx by (simp add: t_def)
  have tn: "t < n"
    using findIndex_range[of "\<lambda>c. handle c = handle cell" "textModel_cells editor"]
    by (simp add: t_def n_def getCellIndex_def getLength_def)
  have th: "handle (textModel_cells editor ! nat t) = handle cell"
    using findIndex_found[of "\<lambda>c. handle c = handle cell" "textModel_cells editor"] idx
    by (simp add: t_def getCellIndex_def)
  have fw: "rangeWithin f n" using pre by (simp add: selectionWithin_def f_def n_def)
  have sw: "\<forall>s \<in> set sels. rangeWithin s n"
    using pre by (simp add: selectionWithin_def n_def list_all_iff sels_def)
  have f1: "end' f \<le> start f + 1" using single by (simp add: f_def)
  have n1: "1 < n" using more by (simp add: n_def)
  from none have nocont: "\<forall>s \<in> set sels. \<not> (start s \<le> t \<and> t < end' s)"
    by (simp add: find_None_iff t_def sels_def)
  have gg: "map g sels = map g' sels"
    using nocont by (auto simp: g_def g'_def)
  have eq: "runDeleteAction editor cell
              = applyEdits [CellReplaceEdit t 1 []] True (currentSelectionState editor)
                  (\<lambda>staged. \<lparr>state_focus = newFocus, state_selections = map g sels\<rparr>)
                  None editor"
  proof (cases "isCell (cellAt editor (start f)) cell")
    case True
    then show ?thesis
      unfolding runDeleteAction_def Let_def t_def[symmetric] sels_def[symmetric]
                f_def[symmetric] n_def[symmetric] g_def[symmetric] newFocus_def
      using none[folded t_def sels_def] by simp
  next
    case False
    then show ?thesis
      unfolding runDeleteAction_def Let_def t_def[symmetric] sels_def[symmetric]
                f_def[symmetric] n_def[symmetric] g_def[symmetric] newFocus_def
      using none[folded t_def sels_def] by simp
  qed
  have expected: "stateAfterDelete editor cell
                    = \<lparr>state_focus = newFocus, state_selections = map g' sels\<rparr>"
    unfolding stateAfterDelete_def Let_def t_def[symmetric] sels_def[symmetric]
              f_def[symmetric] n_def[symmetric] g'_def[symmetric] newFocus_def ..
  have len: "getLength (stageEdits [CellReplaceEdit t 1 []] editor) = n - 1"
    using stage_delete_one[OF t0] tn by (simp add: n_def)
  have selsOk: "list_all (\<lambda>r. rangeWithin r (n - 1)) (map g' sels)"
  proof -
    have "rangeWithin (g' s) (n - 1)" if "s \<in> set sels" for s
      unfolding g'_def using that sw nocont
      by (intro selection_after_delete[OF _ _ t0 tn]) auto
    then show ?thesis by (simp add: list_all_iff)
  qed
  have focusOk: "rangeWithin newFocus (n - 1)"
  proof (cases "isCell (cellAt editor (start f)) cell")
    case True
    then have "start f < n"
      by (auto simp: isCell_def cellAt_def n_def split: if_splits)
    from focus_after_delete_target[OF fw f1 this n1] True show ?thesis
      by (simp add: newFocus_def)
  next
    case False
    have "start f \<noteq> t"
    proof
      assume "start f = t"
      then have "cellAt editor (start f) = Some (textModel_cells editor ! nat t)"
        using t0 tn by (simp add: cellAt_def n_def)
      with th have "isCell (cellAt editor (start f)) cell" by (simp add: isCell_def)
      with False show False by simp
    qed
    from focus_after_delete_other[OF fw f1 this t0 tn] False show ?thesis
      by (simp add: newFocus_def)
  qed
  have within: "stateWithin \<lparr>state_focus = newFocus, state_selections = map g sels\<rparr>
                  (getLength (stageEdits [CellReplaceEdit t 1 []] editor))"
    unfolding len gg using focusOk selsOk by (simp add: stateWithin_def)
  show "textModel_cells (runDeleteAction editor cell)
           = take (nat (getCellIndex editor cell)) (textModel_cells editor)
             @ drop (Suc (nat (getCellIndex editor cell))) (textModel_cells editor)"
    unfolding eq applyEdits_cells t_def[symmetric] by (simp add: newCells_def)
  show "getLength (runDeleteAction editor cell) = getLength editor - 1"
    unfolding eq getLength_applyEdits_staged len n_def ..
  have "currentSelectionState (runDeleteAction editor cell)
          = \<lparr>state_focus = newFocus, state_selections = map g sels\<rparr>"
    unfolding eq using within by (rule applyEdits_keeps_valid)
  then show "currentSelectionState (runDeleteAction editor cell) = stateAfterDelete editor cell"
    unfolding expected gg .
qed

lemma findIndex_nth:
  "distinct (map f xs) \<Longrightarrow> k < length xs \<Longrightarrow> findIndex (\<lambda>c. f c = f (xs ! k)) xs = int k"
proof (induction xs arbitrary: k)
  case Nil
  then show ?case by simp
next
  case (Cons x xs)
  show ?case
  proof (cases k)
    case 0
    then show ?thesis by simp
  next
    case (Suc j)
    with Cons.prems have j: "j < length xs" and d: "distinct (map f xs)"
      and x: "f x \<notin> f ` set xs" by auto
    from j x have "f x \<noteq> f (xs ! j)" by (metis imageI nth_mem)
    moreover have "findIndex (\<lambda>c. f c = f (xs ! j)) xs = int j"
      using Cons.IH[OF d j] .
    ultimately show ?thesis using Suc by simp
  qed
qed

lemma distinct_without_range:
  assumes "distinct (map f cs)" "s \<le> e"
  shows "distinct (map f (take s cs @ drop e cs))"
proof -
  have "cs = take s cs @ take (e - s) (drop s cs) @ drop e cs"
    using assms(2) by (metis append_take_drop_id drop_drop add.commute le_add_diff_inverse)
  then have "distinct (map f (take s cs @ take (e - s) (drop s cs) @ drop e cs))"
    using assms(1) by simp
  then show ?thesis by auto
qed

lemma runDeleteAction_selected:
  assumes one: "getSelections editor = [sel]"
    and within: "rangeWithin sel (getLength editor)"
    and lo: "start sel \<le> getCellIndex editor cell"
    and hi: "getCellIndex editor cell < end' sel"
    and handles: "distinct (map handle (textModel_cells editor))"
  shows "textModel_cells (runDeleteAction editor cell)
           = take (nat (start sel)) (textModel_cells editor)
             @ drop (nat (end' sel)) (textModel_cells editor)"
    and "getLength (runDeleteAction editor cell)
           = getLength editor - (end' sel - start sel)"
    and "currentSelectionState (runDeleteAction editor cell)
           = (if end' sel < getLength editor then singleCellState (start sel)
              else if 0 < start sel then singleCellState (start sel - 1)
              else \<lparr>state_focus = \<lparr>start = 0, end' = 0\<rparr>,
                    state_selections = [\<lparr>start = 0, end' = 0\<rparr>]\<rparr>)"
proof -
  define cs where "cs = textModel_cells editor"
  define n where "n = getLength editor"
  obtain s e where s: "start sel = int s" and e: "end' sel = int e"
    using within by (metis rangeWithin_def order_trans zero_le_imp_eq_int)
  have se: "s \<le> e" and en: "e \<le> length cs"
    using within s e by (simp_all add: rangeWithin_def getLength_def cs_def)
  define edits where "edits = [CellReplaceEdit (start sel) (end' sel - start sel) []]"
  define nextCell where "nextCell = (if getLength editor \<le> end' sel then None
                  else cellAt editor (end' sel))"
  define endc where "endc = (\<lambda>staged.
                      case nextCell of
                        Some nextCell \<Rightarrow>
                          singleCellState
                            (findIndex (\<lambda>c. handle c = handle nextCell) (textModel_cells staged))
                      | None \<Rightarrow>
                          (if getLength staged \<noteq> 0 then singleCellState (getLength staged - 1)
                           else \<lparr>state_focus = \<lparr>start = 0, end' = 0\<rparr>,
                                 state_selections = [\<lparr>start = 0, end' = 0\<rparr>]\<rparr>))"
  have eq: "runDeleteAction editor cell
              = applyEdits edits True
                  \<lparr>state_focus = getFocus editor, state_selections = rev [sel]\<rparr> endc None editor"
    unfolding runDeleteAction_def Let_def one edits_def endc_def nextCell_def
    using lo hi by simp
  have ne: "s + nat (int e - int s) = e"
    using se by linarith
  have staged: "textModel_cells (stageEdits edits editor) = take s cs @ drop e cs"
    by (simp add: stageEdits_cells edits_def s e newCells_def cs_def ne)
  have slen: "getLength (stageEdits edits editor) = int s + (n - int e)"
    using se en by (simp add: getLength_def staged n_def cs_def)
  show "textModel_cells (runDeleteAction editor cell)
           = take (nat (start sel)) (textModel_cells editor)
             @ drop (nat (end' sel)) (textModel_cells editor)"
    unfolding eq applyEdits_cells stageEdits_cells[symmetric] staged by (simp add: s e cs_def)
  show "getLength (runDeleteAction editor cell)
           = getLength editor - (end' sel - start sel)"
    unfolding eq getLength_applyEdits_staged slen by (simp add: s e n_def)
  have computed: "endc (stageEdits edits editor)
           = (if end' sel < getLength editor then singleCellState (start sel)
              else if 0 < start sel then singleCellState (start sel - 1)
              else \<lparr>state_focus = \<lparr>start = 0, end' = 0\<rparr>,
                    state_selections = [\<lparr>start = 0, end' = 0\<rparr>]\<rparr>)"
  proof (cases "e < length cs")
    case True
    then have nc: "nextCell = Some (cs ! e)"
      by (simp add: nextCell_def cellAt_def getLength_def e cs_def)
    have d: "distinct (map handle (take s cs @ drop e cs))"
      using handles se unfolding cs_def by (rule distinct_without_range)
    have k: "s < length (take s cs @ drop e cs)"
      using True se by simp
    have at: "(take s cs @ drop e cs) ! s = cs ! e"
      using True se by (simp add: nth_append)
    have "findIndex (\<lambda>c. handle c = handle ((take s cs @ drop e cs) ! s)) (take s cs @ drop e cs)
            = int s"
      using d k by (rule findIndex_nth)
    then have "findIndex (\<lambda>c. handle c = handle (cs ! e)) (take s cs @ drop e cs) = int s"
      unfolding at .
    then show ?thesis
      using True by (simp add: endc_def nc staged s e getLength_def cs_def)
  next
    case False
    then have el: "e = length cs" using en by simp
    then have nc: "nextCell = None"
      by (simp add: nextCell_def getLength_def e cs_def)
    have gl: "getLength (stageEdits edits editor) = int s"
      using slen el by (simp add: n_def getLength_def cs_def)
    have last: "\<not> end' sel < getLength editor"
      using el by (simp add: e getLength_def cs_def)
    show ?thesis
      using last by (simp add: endc_def nc gl s)
  qed
  have "stateWithin (endc (stageEdits edits editor)) (getLength (stageEdits edits editor))"
    unfolding computed slen using se en
    by (simp add: stateWithin_def rangeWithin_def singleCellState_def s e n_def getLength_def
          cs_def)
  then have "currentSelectionState (runDeleteAction editor cell) = endc (stageEdits edits editor)"
    unfolding eq by (rule applyEdits_keeps_valid)
  then show "currentSelectionState (runDeleteAction editor cell)
           = (if end' sel < getLength editor then singleCellState (start sel)
              else if 0 < start sel then singleCellState (start sel - 1)
              else \<lparr>state_focus = \<lparr>start = 0, end' = 0\<rparr>,
                    state_selections = [\<lparr>start = 0, end' = 0\<rparr>]\<rparr>)"
    unfolding computed .
qed

text \<open>
  C1, as the claim states it, fails: a Replace that asks for more cells than there are
  from its index on cannot remove them, and the count
  \<open>originalCount - sum(removed) + sum(inserted)\<close> is then not the count of the Document
  (here it is negative).
\<close>

theorem batch_count_counterexample:
  "expectedCount (getLength editor3) [CellReplaceEdit 1 5 []] = - 2
   \<and> getLength (applyEdits [CellReplaceEdit 1 5 []] True (currentSelectionState editor3)
                  currentSelectionState None editor3) = 1
   \<and> getLength (applyEdits [CellReplaceEdit 1 5 []] True (currentSelectionState editor3)
                  currentSelectionState None editor3)
       \<noteq> expectedCount (getLength editor3) [CellReplaceEdit 1 5 []]"
  by (simp add: applyEdits_cells expectedCount_def newCells_def editor_eval)

text \<open>
  C1, amended. For every batch whose edits are in range when their turn comes, the cell
  count after the batch is \<open>originalCount - sum(removed) + sum(inserted)\<close>. After every
  batch, every range of the Selection State lies within \<open>[0, newCount]\<close>; a Selection State
  the caller's compute-after function returns within these bounds is the Selection State
  after the batch. \<^verbatim>\<open>insertCellAtIndex\<close> at an index in \<open>[0, count]\<close> leaves one cell more
  and the Selection State on the cell at the index. \<^verbatim>\<open>runDeleteAction\<close> leaves a Selection
  State within the Document. When the cell is in the Document and in no selection, the
  Selection State was within the Document, the focus is at most one cell and the Document
  has more than one cell, it takes that cell out, leaves one cell less, and the Selection
  State is the one it computes. When the cell is in the one selection there is, which lies
  within the Document, and no two cells have the same handle, it takes the cells of the
  selection out, and the Selection State is the cell that followed the selection, or the
  last cell when none followed, or \<open>[0, 0)\<close> when no cell is left.
\<close>

theorem valid_batch_count_and_selection:
  "(validBatch (getLength editor) edits \<longrightarrow>
      getLength (applyEdits edits sync begin endc sixth editor)
        = expectedCount (getLength editor) edits)
   \<and> selectionWithin (applyEdits edits sync begin endc sixth editor)
   \<and> (stateWithin (endc (stageEdits edits editor)) (getLength (stageEdits edits editor)) \<longrightarrow>
        currentSelectionState (applyEdits edits sync begin endc sixth editor)
          = endc (stageEdits edits editor))
   \<and> (0 \<le> index \<and> index \<le> getLength editor \<longrightarrow>
        getLength (fst (insertCellAtIndex editor index source language type metadata outputs
                          sync pushUndoStop))
          = getLength editor + 1
        \<and> currentSelectionState (fst (insertCellAtIndex editor index source language type
                                        metadata outputs sync pushUndoStop))
            = singleCellState index)
   \<and> selectionWithin (fst (insertCellAtIndex editor index source language type metadata
                              outputs sync pushUndoStop))
   \<and> selectionWithin (runDeleteAction editor cell)
   \<and> (selectionWithin editor \<and> 0 \<le> getCellIndex editor cell
        \<and> find (\<lambda>selection. start selection \<le> getCellIndex editor cell
                     \<and> getCellIndex editor cell < end' selection) (getSelections editor) = None
        \<and> end' (getFocus editor) \<le> start (getFocus editor) + 1
        \<and> 1 < getLength editor \<longrightarrow>
        textModel_cells (runDeleteAction editor cell)
          = take (nat (getCellIndex editor cell)) (textModel_cells editor)
            @ drop (Suc (nat (getCellIndex editor cell))) (textModel_cells editor)
        \<and> getLength (runDeleteAction editor cell) = getLength editor - 1
        \<and> currentSelectionState (runDeleteAction editor cell) = stateAfterDelete editor cell)
   \<and> (getSelections editor = [sel] \<and> rangeWithin sel (getLength editor)
        \<and> start sel \<le> getCellIndex editor selected \<and> getCellIndex editor selected < end' sel
        \<and> distinct (map handle (textModel_cells editor)) \<longrightarrow>
        textModel_cells (runDeleteAction editor selected)
          = take (nat (start sel)) (textModel_cells editor)
            @ drop (nat (end' sel)) (textModel_cells editor)
        \<and> getLength (runDeleteAction editor selected)
            = getLength editor - (end' sel - start sel)
        \<and> currentSelectionState (runDeleteAction editor selected)
            = (if end' sel < getLength editor then singleCellState (start sel)
               else if 0 < start sel then singleCellState (start sel - 1)
               else \<lparr>state_focus = \<lparr>start = 0, end' = 0\<rparr>,
                     state_selections = [\<lparr>start = 0, end' = 0\<rparr>]\<rparr>))"
proof (intro conjI impI, goal_cases)
  case 1
  then show ?case
    using foldl_applyEdit_count[of "textModel_cells editor" edits "nextHandle editor"]
    by (simp add: getLength_def applyEdits_cells)
next
  case 2
  show ?case by (rule selectionWithin_applyEdits)
next
  case 3
  then show ?case by (rule applyEdits_keeps_valid)
next
  case 4
  then show ?case using insertCellAtIndex_length by blast
next
  case 5
  then show ?case using insertCellAtIndex_state by blast
next
  case 6
  show ?case by (simp add: insertCellAtIndex_def Let_def selectionWithin_applyEdits)
next
  case 7
  obtain es b e where "runDeleteAction editor cell = applyEdits es True b e None editor"
    using runDeleteAction_applies by blast
  then show ?case by (simp add: selectionWithin_applyEdits)
next
  case 8
  then show ?case using runDeleteAction_outside(1) by blast
next
  case 9
  then show ?case using runDeleteAction_outside(2) by blast
next
  case 10
  then show ?case using runDeleteAction_outside(3) by blast
next
  case 11
  then show ?case using runDeleteAction_selected(1) by blast
next
  case 12
  then show ?case using runDeleteAction_selected(2) by blast
next
  case 13
  then show ?case using runDeleteAction_selected(3) by blast
qed

theorem valid_batch_count_and_selection_witness:
  "validBatch (getLength editor3) validEdits
   \<and> getLength (applyEdits validEdits True (currentSelectionState editor3)
                  (\<lambda>staged. singleCellState 0) None editor3) = 2
   \<and> stateWithin (singleCellState 0) (getLength (stageEdits validEdits editor3))
   \<and> currentSelectionState (applyEdits validEdits True (currentSelectionState editor3)
                              (\<lambda>staged. singleCellState 0) None editor3)
       = singleCellState 0
   \<and> (0 \<le> (3::int) \<and> 3 \<le> getLength editor3)
   \<and> getLength (fst (insertCellAtIndex editor3 3 ''x'' ''python'' Code None [] True True)) = 4
   \<and> currentSelectionState (fst (insertCellAtIndex editor3 3 ''x'' ''python'' Code None []
                                    True True))
       = singleCellState 3
   \<and> (selectionWithin editor3 \<and> 0 \<le> getCellIndex editor3 (textCell 0 Code [''a''])
        \<and> find (\<lambda>selection. start selection \<le> getCellIndex editor3 (textCell 0 Code [''a''])
                     \<and> getCellIndex editor3 (textCell 0 Code [''a'']) < end' selection)
             (getSelections editor3) = None
        \<and> end' (getFocus editor3) \<le> start (getFocus editor3) + 1
        \<and> 1 < getLength editor3)
   \<and> textModel_cells (runDeleteAction editor3 (textCell 0 Code [''a'']))
       = [textCell 1 Code [''b''], textCell 2 Markup [''c'']]
   \<and> getLength (runDeleteAction editor3 (textCell 0 Code [''a''])) = 2
   \<and> currentSelectionState (runDeleteAction editor3 (textCell 0 Code [''a'']))
       = \<lparr>state_focus = \<lparr>start = 0, end' = 1\<rparr>, state_selections = [\<lparr>start = 0, end' = 1\<rparr>]\<rparr>
   \<and> (getSelections editor3 = [\<lparr>start = 1, end' = 2\<rparr>]
        \<and> rangeWithin \<lparr>start = 1, end' = 2\<rparr> (getLength editor3)
        \<and> start \<lparr>start = 1, end' = 2\<rparr> \<le> getCellIndex editor3 (textCell 1 Code [''b''])
        \<and> getCellIndex editor3 (textCell 1 Code [''b'']) < end' \<lparr>start = 1, end' = 2\<rparr>
        \<and> distinct (map handle (textModel_cells editor3)))
   \<and> textModel_cells (runDeleteAction editor3 (textCell 1 Code [''b'']))
       = [textCell 0 Code [''a''], textCell 2 Markup [''c'']]
   \<and> currentSelectionState (runDeleteAction editor3 (textCell 1 Code [''b'']))
       = singleCellState 1"
proof -
  let ?sel = "\<lparr>start = 1, end' = 2\<rparr>"
  let ?b = "textCell 1 Code [''b'']"
  let ?c = "textCell 0 Code [''a'']"
  let ?endc = "\<lambda>staged::NotebookEditor. singleCellState 0"
  have h1: "validBatch (getLength editor3) validEdits"
    by (simp add: validEdits_def editor_eval)
  have e1: "expectedCount (getLength editor3) validEdits = 2"
    by (simp add: validEdits_def expectedCount_def editor_eval)
  have h2: "stateWithin (?endc (stageEdits validEdits editor3))
              (getLength (stageEdits validEdits editor3))"
    by (simp add: stateWithin_def rangeWithin_def singleCellState_def getLength_def
          stageEdits_cells validEdits_def newCells_def editor3_def editorOf_def threeCells_def)
  have h3: "0 \<le> (3::int) \<and> 3 \<le> getLength editor3"
    by (simp add: editor_eval)
  have l3: "getLength editor3 + 1 = 4" "getLength editor3 - 1 = 2"
    by (simp_all add: editor_eval)
  have h4: "selectionWithin editor3 \<and> 0 \<le> getCellIndex editor3 ?c
        \<and> find (\<lambda>selection. start selection \<le> getCellIndex editor3 ?c
                     \<and> getCellIndex editor3 ?c < end' selection)
             (getSelections editor3) = None
        \<and> end' (getFocus editor3) \<le> start (getFocus editor3) + 1
        \<and> 1 < getLength editor3"
    by (simp add: selectionWithin_def rangeWithin_def editor_eval)
  have cells: "take (nat (getCellIndex editor3 ?c)) (textModel_cells editor3)
                 @ drop (Suc (nat (getCellIndex editor3 ?c))) (textModel_cells editor3)
               = [textCell 1 Code [''b''], textCell 2 Markup [''c'']]"
    by (simp add: editor_eval)
  have expected: "stateAfterDelete editor3 ?c
      = \<lparr>state_focus = \<lparr>start = 0, end' = 1\<rparr>, state_selections = [\<lparr>start = 0, end' = 1\<rparr>]\<rparr>"
    by (simp add: stateAfterDelete_def isCell_def shiftRange_def Let_def editor_eval)
  have h5: "getSelections editor3 = [?sel] \<and> rangeWithin ?sel (getLength editor3)
        \<and> start ?sel \<le> getCellIndex editor3 ?b \<and> getCellIndex editor3 ?b < end' ?sel
        \<and> distinct (map handle (textModel_cells editor3))"
    by (simp add: rangeWithin_def editor_eval)
  have cells5: "take (nat (start ?sel)) (textModel_cells editor3)
                  @ drop (nat (end' ?sel)) (textModel_cells editor3)
                = [textCell 0 Code [''a''], textCell 2 Markup [''c'']]"
    by (simp add: editor_eval)
  have state5: "(if end' ?sel < getLength editor3 then singleCellState (start ?sel)
               else if 0 < start ?sel then singleCellState (start ?sel - 1)
               else \<lparr>state_focus = \<lparr>start = 0, end' = 0\<rparr>,
                     state_selections = [\<lparr>start = 0, end' = 0\<rparr>]\<rparr>)
              = singleCellState 1"
    by (simp add: editor_eval)
  note t = valid_batch_count_and_selection
     [of editor3 validEdits True "currentSelectionState editor3" ?endc None
         3 "''x''" "''python''" Code None "[]" True ?c ?sel ?b]
  from t h1 have c1: "getLength (applyEdits validEdits True (currentSelectionState editor3)
                   ?endc None editor3) = expectedCount (getLength editor3) validEdits"
    by blast
  from t h2 have c2: "currentSelectionState (applyEdits validEdits True
                        (currentSelectionState editor3) ?endc None editor3)
                      = ?endc (stageEdits validEdits editor3)"
    by blast
  from t h3 have c3:
    "getLength (fst (insertCellAtIndex editor3 3 ''x'' ''python'' Code None [] True True))
       = getLength editor3 + 1
     \<and> currentSelectionState (fst (insertCellAtIndex editor3 3 ''x'' ''python'' Code None []
                                      True True))
         = singleCellState 3"
    by blast
  from t h4 have c4:
    "textModel_cells (runDeleteAction editor3 ?c)
       = take (nat (getCellIndex editor3 ?c)) (textModel_cells editor3)
         @ drop (Suc (nat (getCellIndex editor3 ?c))) (textModel_cells editor3)
     \<and> getLength (runDeleteAction editor3 ?c) = getLength editor3 - 1
     \<and> currentSelectionState (runDeleteAction editor3 ?c) = stateAfterDelete editor3 ?c"
    by blast
  from t h5 have c5:
    "textModel_cells (runDeleteAction editor3 ?b)
       = take (nat (start ?sel)) (textModel_cells editor3)
         @ drop (nat (end' ?sel)) (textModel_cells editor3)
     \<and> currentSelectionState (runDeleteAction editor3 ?b)
         = (if end' ?sel < getLength editor3 then singleCellState (start ?sel)
            else if 0 < start ?sel then singleCellState (start ?sel - 1)
            else \<lparr>state_focus = \<lparr>start = 0, end' = 0\<rparr>,
                  state_selections = [\<lparr>start = 0, end' = 0\<rparr>]\<rparr>)"
    by blast
  from h1 c1 h2 c2 h3 c3 h4 c4 h5 c5 show ?thesis
    unfolding e1 l3 cells expected cells5 state5 by blast
qed

subsection \<open>Splitting a cell\<close>




lemma positionKey_inj: "positionKey p = positionKey q \<longleftrightarrow> p = (q :: IPosition)"
  by (cases p, cases q) (auto simp: positionKey_def)

lemma remdups_adj_snoc:
  "remdups_adj (ps @ [p]) = (if ps = [] \<or> last ps \<noteq> p then remdups_adj ps @ [p] else remdups_adj ps)"
proof (cases ps rule: rev_cases)
  case Nil
  then show ?thesis by simp
next
  case (snoc qs q)
  then show ?thesis by (simp add: remdups_adj_append_two)
qed

lemma pushIfAbsent_eq:
  "pushIfAbsent positions p = (if positions = [] \<or> last positions \<noteq> p then positions @ [p] else positions)"
  by (cases p, cases "last positions") (auto simp: pushIfAbsent_def)

lemma boundariesLoop_foldl:
  "boundariesLoop tb acc sps = foldl pushIfAbsent acc (map (adjustSplitPoint tb) sps)"
  by (induction sps arbitrary: acc) simp_all

lemma foldl_pushIfAbsent: "foldl pushIfAbsent [] ps = remdups_adj ps"
proof (induction ps rule: rev_induct)
  case Nil
  then show ?case by simp
next
  case (snoc p ps)
  have "last (remdups_adj ps) = last ps" by (rule last_remdups_adj)
  then show ?case using snoc by (simp add: pushIfAbsent_eq remdups_adj_snoc)
qed

lemma key_le_adjust: "positionKey sp \<le> positionKey (adjustSplitPoint tb sp)"
  by (simp add: adjustSplitPoint_def positionKey_def Position_def)

lemma adjust_valid:
  "validPosition tb sp \<Longrightarrow> validPosition tb (adjustSplitPoint tb sp)"
  by (auto simp: adjustSplitPoint_def validPosition_def Position_def getLineLength_def)

lemma adjust_mono:
  assumes "validPosition tb p" "validPosition tb q" "positionKey p \<le> positionKey q"
  shows "positionKey (adjustSplitPoint tb p) \<le> positionKey (adjustSplitPoint tb q)"
proof (cases "adjustSplitPoint tb p = p")
  case True
  then show ?thesis using assms(3) key_le_adjust[of q tb] by (metis order_trans)
next
  case False
  then have adj: "getLineLength tb (lineNumber p) + 1 = column p" "lineNumber p < getLineCount tb"
    and ap: "adjustSplitPoint tb p = Position (lineNumber p + 1) 1"
    by (auto simp: adjustSplitPoint_def split: if_splits)
  show ?thesis
  proof (cases "lineNumber p < lineNumber q")
    case True
    then have "positionKey (Position (lineNumber p + 1) 1) \<le> positionKey q"
      using assms(2) by (auto simp: positionKey_def Position_def validPosition_def)
    then show ?thesis using ap key_le_adjust[of q tb] by (metis order_trans)
  next
    case False
    with assms(3) have "lineNumber q = lineNumber p" "column p \<le> column q"
      by (auto simp: positionKey_def)
    with assms(2) adj have "q = p"
      by (cases p, cases q) (auto simp: validPosition_def)
    then show ?thesis by simp
  qed
qed

lemma strict_sorted_remdups_adj:
  "sorted (xs :: 'a :: linorder list) \<Longrightarrow> sorted_wrt (<) (remdups_adj xs)"
proof (induction xs rule: remdups_adj.induct)
  case 1
  then show ?case by simp
next
  case (2 x)
  then show ?case by simp
next
  case (3 x y xs)
  show ?case
  proof (cases "x = y")
    case True
    with 3 show ?thesis by simp
  next
    case False
    with "3.prems" have "\<forall>z \<in> set (y # xs). x < z" by auto
    moreover from 3 False have "sorted_wrt (<) (remdups_adj (y # xs))" by simp
    ultimately show ?thesis using False by simp
  qed
qed

lemma boundaries_strict:
  assumes "\<forall>sp \<in> set sps. validPosition tb sp"
  shows "sorted_wrt (<) (map positionKey (boundariesLoop tb [] (sortSplitPoints sps)))"
    and "set (boundariesLoop tb [] (sortSplitPoints sps)) = adjustSplitPoint tb ` set sps"
proof -
  let ?pts = "sortSplitPoints sps"
  let ?adj = "map (adjustSplitPoint tb) ?pts"
  have b: "boundariesLoop tb [] ?pts = remdups_adj ?adj"
    by (simp add: boundariesLoop_foldl foldl_pushIfAbsent)
  have "sorted (map positionKey ?pts)" by (simp add: sortSplitPoints_def)
  then have "sorted_wrt (\<lambda>p q. positionKey p \<le> positionKey q) ?pts"
    by (simp add: sorted_map)
  then have "sorted_wrt (\<lambda>p q. positionKey (adjustSplitPoint tb p)
                                  \<le> positionKey (adjustSplitPoint tb q)) ?pts"
  proof (rule sorted_wrt_mono_rel[rotated])
    fix p q assume "p \<in> set ?pts" "q \<in> set ?pts" "positionKey p \<le> positionKey q"
    then show "positionKey (adjustSplitPoint tb p) \<le> positionKey (adjustSplitPoint tb q)"
      using assms by (intro adjust_mono) (simp_all add: sortSplitPoints_def)
  qed
  then have "sorted (map positionKey ?adj)"
    by (simp add: sorted_map sorted_wrt_map)
  then have strict: "sorted_wrt (<) (remdups_adj (map positionKey ?adj))"
    by (rule strict_sorted_remdups_adj)
  have "inj positionKey" by (rule injI) (simp add: positionKey_inj)
  then have comm: "remdups_adj (map positionKey ?adj) = map positionKey (remdups_adj ?adj)"
    by (rule remdups_adj_map_injective)
  show "sorted_wrt (<) (map positionKey (boundariesLoop tb [] ?pts))"
    unfolding b using strict unfolding comm .
  show "set (boundariesLoop tb [] ?pts) = adjustSplitPoint tb ` set sps"
    unfolding b by (simp add: sortSplitPoints_def)
qed



lemma segment_nonempty:
  assumes "validPosition tb a" "validPosition tb b" "positionKey a < positionKey b"
    and "buffer_eol tb \<noteq> []"
  shows "getValueInRange tb (mkRange (lineNumber a) (column a) (lineNumber b) (column b)) \<noteq> []"
proof (cases "lineNumber a = lineNumber b")
  case True
  with assms(3) have c: "column a < column b" by (simp add: positionKey_def)
  have "nat (column a - 1) < length (getLineContent tb (lineNumber a))"
    using assms(1,2) c True by (simp add: validPosition_def getLineLength_def) linarith
  then show ?thesis using True c
    by (simp add: getValueInRange_def mkRange_def)
next
  case False
  with assms(3) have "lineNumber a < lineNumber b" by (auto simp: positionKey_def)
  then show ?thesis using assms(4)
    by (simp add: getValueInRange_def mkRange_def)
qed

lemma lineModels_nonempty:
  assumes "sorted_wrt (<) (map positionKey ps)" "\<forall>p \<in> set ps. validPosition tb p"
    and "buffer_eol tb \<noteq> []"
  shows "[] \<notin> set (lineModels tb ps)"
  using assms
proof (induction tb ps rule: lineModels.induct)
  case (1 tb startPos endPos rest)
  then have "positionKey startPos < positionKey endPos" by simp
  with 1 segment_nonempty[of tb startPos endPos] show ?case by simp
next
  case (2 tb startPos)
  then show ?case by simp
next
  case (3 tb)
  then show ?case by simp
qed

lemma valid_bounds:
  assumes "validPosition tb p"
  shows "positionKey modelStart \<le> positionKey p" "positionKey p \<le> positionKey (modelEnd tb)"
  using assms
  by (cases "lineNumber p = getLineCount tb";
      auto simp: validPosition_def modelStart_def modelEnd_def Position_def positionKey_def Let_def)+

lemma model_ends_valid:
  assumes "buffer_lines tb \<noteq> []"
  shows "validPosition tb modelStart" "validPosition tb (modelEnd tb)"
  using assms
  by (auto simp: validPosition_def modelStart_def modelEnd_def Position_def Let_def
        getLineCount_def getLineLength_def Suc_le_eq)

lemma split_nonempty:
  assumes wf: "buffer_lines (textBuffer cell) \<noteq> []" "buffer_eol (textBuffer cell) \<noteq> []"
    and valid: "\<forall>sp \<in> set splitPoints. validPosition (textBuffer cell) sp"
    and inner: "\<forall>sp \<in> set splitPoints.
                  adjustSplitPoint (textBuffer cell) sp \<noteq> modelStart
                  \<and> adjustSplitPoint (textBuffer cell) sp \<noteq> modelEnd (textBuffer cell)"
    and ne: "splitPoints \<noteq> []"
  shows "\<exists>segments. computeCellLinesContents cell splitPoints = Some segments
           \<and> [] \<notin> set segments"
proof -
  let ?tb = "textBuffer cell"
  let ?B = "boundariesLoop ?tb [] (sortSplitPoints splitPoints)"
  let ?full = "[modelStart] @ ?B @ [modelEnd ?tb]"
  note bs = boundaries_strict[OF valid]
  have Bset: "set ?B = adjustSplitPoint ?tb ` set splitPoints" by (rule bs(2))
  have Bne: "?B \<noteq> []" using Bset ne by auto
  have Bvalid: "\<forall>p \<in> set ?B. validPosition ?tb p"
    using Bset valid adjust_valid by auto
  have lo: "\<forall>p \<in> set ?B. positionKey modelStart < positionKey p"
  proof
    fix p assume p: "p \<in> set ?B"
    then have "p \<noteq> modelStart" using Bset inner by auto
    then have "positionKey modelStart \<noteq> positionKey p" by (simp add: positionKey_inj)
    moreover have "positionKey modelStart \<le> positionKey p"
      using p Bvalid valid_bounds(1) by blast
    ultimately show "positionKey modelStart < positionKey p" by simp
  qed
  have hi: "\<forall>p \<in> set ?B. positionKey p < positionKey (modelEnd ?tb)"
  proof
    fix p assume p: "p \<in> set ?B"
    then have "p \<noteq> modelEnd ?tb" using Bset inner by auto
    then have "positionKey p \<noteq> positionKey (modelEnd ?tb)" by (simp add: positionKey_inj)
    moreover have "positionKey p \<le> positionKey (modelEnd ?tb)"
      using p Bvalid valid_bounds(2) by blast
    ultimately show "positionKey p < positionKey (modelEnd ?tb)" by simp
  qed
  obtain b where b: "b \<in> set ?B" using Bne by (cases ?B) auto
  have se: "positionKey modelStart < positionKey (modelEnd ?tb)"
    using lo hi b by (meson less_trans)
  have strict: "sorted_wrt (<) (map positionKey ?full)"
    using bs(1) lo hi se by (simp add: sorted_wrt_append)
  have allvalid: "\<forall>p \<in> set ?full. validPosition ?tb p"
    using Bvalid model_ends_valid[OF wf(1)] by simp
  have "[] \<notin> set (lineModels ?tb ?full)"
    using strict allvalid wf(2) by (rule lineModels_nonempty)
  moreover have "computeCellLinesContents cell splitPoints = Some (lineModels ?tb ?full)"
    using Bne by (simp add: computeCellLinesContents_def splitPointsToBoundaries_def Let_def)
  ultimately show ?thesis by blast
qed

lemmas split_eval =
  computeCellLinesContents_def splitPointsToBoundaries_def sortSplitPoints_def positionKey_def
  adjustSplitPoint_def pushIfAbsent_def modelStart_def modelEnd_def Position_def
  getLineLength_def getLineContent_def getLineCount_def getValueInRange_def mkRange_def
  textCell_def Let_def

text \<open>
  C6, as the claim states it, fails. A split point at the end of the last line stays where
  it is (there is no next line to move it to) and is the end of the buffer, so the last
  segment is empty; a split point at the end of the line before an empty last line is
  moved onto the end of the buffer, with the same result.
\<close>

theorem split_at_buffer_end_counterexample:
  "atEndOfLine (textBuffer oneLineCell) (Position 1 3)
   \<and> computeCellLinesContents oneLineCell [Position 1 3] = Some [''ab'', []]
   \<and> atEndOfLine (textBuffer emptyLastLineCell) (Position 1 3)
   \<and> computeCellLinesContents emptyLastLineCell [Position 1 3]
       = Some [''ab'' @ [CHR 0x0A], []]"
  by (simp add: split_eval atEndOfLine_def oneLineCell_def emptyLastLineCell_def)

text \<open>
  C6, amended. For a cell whose buffer has a line and a non-empty line break, and split
  points that are positions of the buffer: a split point at the end of a non-empty line
  that is not the last line is moved to column 1 of the next line, and if no split point,
  so moved, is the start or the end of the buffer, then \<^verbatim>\<open>computeCellLinesContents\<close>
  returns segments none of which is empty.
\<close>

theorem split_segments_nonempty:
  assumes "wellFormedBuffer (textBuffer cell)"
    and "\<forall>sp \<in> set splitPoints. validPosition (textBuffer cell) sp"
    and "\<forall>sp \<in> set splitPoints.
           adjustSplitPoint (textBuffer cell) sp \<noteq> modelStart
           \<and> adjustSplitPoint (textBuffer cell) sp \<noteq> modelEnd (textBuffer cell)"
    and "splitPoints \<noteq> []"
  shows "(\<exists>segments. computeCellLinesContents cell splitPoints = Some segments
            \<and> [] \<notin> set segments)
         \<and> (\<forall>sp \<in> set splitPoints.
               atEndOfLine (textBuffer cell) sp \<and> column sp \<noteq> 1
               \<and> lineNumber sp < getLineCount (textBuffer cell)
               \<longrightarrow> adjustSplitPoint (textBuffer cell) sp = Position (lineNumber sp + 1) 1)"
proof
  from assms(1) have wf: "buffer_lines (textBuffer cell) \<noteq> []" "buffer_eol (textBuffer cell) \<noteq> []"
    by (simp_all add: wellFormedBuffer_def)
  from split_nonempty[OF wf assms(2,3,4)]
  show "\<exists>segments. computeCellLinesContents cell splitPoints = Some segments
            \<and> [] \<notin> set segments" .
  show "\<forall>sp \<in> set splitPoints.
               atEndOfLine (textBuffer cell) sp \<and> column sp \<noteq> 1
               \<and> lineNumber sp < getLineCount (textBuffer cell)
               \<longrightarrow> adjustSplitPoint (textBuffer cell) sp = Position (lineNumber sp + 1) 1"
    by (simp add: atEndOfLine_def adjustSplitPoint_def)
qed

theorem split_segments_nonempty_witness:
  "wellFormedBuffer (textBuffer twoLineCell)
   \<and> validPosition (textBuffer twoLineCell) (Position 1 3)
   \<and> adjustSplitPoint (textBuffer twoLineCell) (Position 1 3) \<noteq> modelStart
   \<and> adjustSplitPoint (textBuffer twoLineCell) (Position 1 3)
       \<noteq> modelEnd (textBuffer twoLineCell)
   \<and> [Position 1 3] \<noteq> []
   \<and> atEndOfLine (textBuffer twoLineCell) (Position 1 3)
   \<and> computeCellLinesContents twoLineCell [Position 1 3] \<noteq> None
   \<and> [] \<notin> set (the (computeCellLinesContents twoLineCell [Position 1 3]))
   \<and> adjustSplitPoint (textBuffer twoLineCell) (Position 1 3) = Position 2 1"
proof -
  have h1: "wellFormedBuffer (textBuffer twoLineCell)"
    by (simp add: wellFormedBuffer_def twoLineCell_def textCell_def)
  have h2: "\<forall>sp \<in> set [Position 1 3]. validPosition (textBuffer twoLineCell) sp"
    by (simp add: validPosition_def twoLineCell_def split_eval)
  have h3: "\<forall>sp \<in> set [Position 1 3].
         adjustSplitPoint (textBuffer twoLineCell) sp \<noteq> modelStart
         \<and> adjustSplitPoint (textBuffer twoLineCell) sp \<noteq> modelEnd (textBuffer twoLineCell)"
    by (simp add: twoLineCell_def split_eval)
  have h4: "[Position 1 3] \<noteq> []" by simp
  have e: "atEndOfLine (textBuffer twoLineCell) (Position 1 3)
           \<and> column (Position 1 3) \<noteq> 1
           \<and> lineNumber (Position 1 3) < getLineCount (textBuffer twoLineCell)"
    by (simp add: atEndOfLine_def twoLineCell_def split_eval)
  note t = split_segments_nonempty[OF h1 h2 h3 h4]
  from t have c1: "computeCellLinesContents twoLineCell [Position 1 3] \<noteq> None
     \<and> [] \<notin> set (the (computeCellLinesContents twoLineCell [Position 1 3]))"
    by auto
  from t e have "adjustSplitPoint (textBuffer twoLineCell) (Position 1 3)
                   = Position (lineNumber (Position 1 3) + 1) 1"
    by simp
  then have c2: "adjustSplitPoint (textBuffer twoLineCell) (Position 1 3) = Position 2 1"
    by (simp add: Position_def)
  from h2 have v: "validPosition (textBuffer twoLineCell) (Position 1 3)" by simp
  from h3 have i: "adjustSplitPoint (textBuffer twoLineCell) (Position 1 3) \<noteq> modelStart
     \<and> adjustSplitPoint (textBuffer twoLineCell) (Position 1 3)
         \<noteq> modelEnd (textBuffer twoLineCell)"
    by simp
  from h1 v i h4 e c1 c2 show ?thesis by blast
qed

end
